theory Spec2Isabelle
  imports Main "HOL-Library.Char_ord" "HOL-Library.List_Lexorder" "HOL-Library.AList"
begin

section \<open>The IPPcode24 parser \<open>parse.py\<close>\<close>

text \<open>
  A shallow embedding of \<^verbatim>\<open>src/parse.py\<close>. A Python \<^verbatim>\<open>str\<close> is a \<open>string\<close>; a
  \<open>char\<close> stands for the code point of the same number, so the model covers the
  inputs whose characters have code points below 256. On these, \<^verbatim>\<open>\d\<close> is
  \<open>0..9\<close> and \<^verbatim>\<open>\s\<close>, \<^verbatim>\<open>str.strip()\<close> and \<^verbatim>\<open>str.split()\<close> agree on the
  white space: code points 9..13, 28..32, 133 and 160. Counters are natural numbers (they
  start at 0 and are only incremented). A \<^verbatim>\<open>dict\<close> is an association list in
  insertion order (the order Python iterates in): \<open>AList.update\<close> overwrites in place
  or appends, \<open>AList.delete\<close> removes.
\<close>

subsection \<open>Errors\<close>

text \<open>
  Every \<^verbatim>\<open>sys.exit\<close> of the source and every exception it can raise is a value;
  \<open>exit_status\<close> is the status the process ends with (1 for an uncaught
  exception). \<open>RoleMismatchError i\<close> is the exit at argument \<open>i\<close> (counted from 1)
  of \<^verbatim>\<open>parse_instruction\<close>.
\<close>

datatype error =
    HelpCombinedError
  | HelpPrinted
  | MissingStatsFileError
  | ConfigurationError
  | UnknownArgumentError
  | HeaderError
  | UnknownOpcodeError
  | PatternMismatchError
  | UnknownOpcodeInParseError
  | ArityError_too_few
  | RoleMismatchError nat
  | ArityError_too_many
  | DuplicateLabelError
  | UnboundLocalError
  | ValueError
  | IndexError
  | OverflowError

fun exit_status :: "error \<Rightarrow> nat" where
  "exit_status HelpCombinedError = 10"
| "exit_status HelpPrinted = 0"
| "exit_status MissingStatsFileError = 10"
| "exit_status ConfigurationError = 12"
| "exit_status UnknownArgumentError = 10"
| "exit_status HeaderError = 22"
| "exit_status UnknownOpcodeError = 22"
| "exit_status PatternMismatchError = 23"
| "exit_status UnknownOpcodeInParseError = 23"
| "exit_status ArityError_too_few = 23"
| "exit_status (RoleMismatchError i) = 23"
| "exit_status ArityError_too_many = 23"
| "exit_status DuplicateLabelError = 23"
| "exit_status UnboundLocalError = 1"
| "exit_status ValueError = 1"
| "exit_status IndexError = 1"
| "exit_status OverflowError = 1"

subsection \<open>Characters and the string methods the source calls\<close>

definition char_range :: "char \<Rightarrow> char \<Rightarrow> char \<Rightarrow> bool" where
  "char_range lo hi c = (lo \<le> c \<and> c \<le> hi)"

definition is_digit :: "char \<Rightarrow> bool" where
  "is_digit c = char_range CHR ''0'' CHR ''9'' c"

definition is_space :: "char \<Rightarrow> bool" where
  "is_space c =
     (let n = (of_char c :: nat)
      in (9 \<le> n \<and> n \<le> 13) \<or> (28 \<le> n \<and> n \<le> 32) \<or> n = 133 \<or> n = 160)"

definition non_space :: "char \<Rightarrow> bool" where
  "non_space c = (\<not> is_space c)"

text \<open>\<^verbatim>\<open>s.strip()\<close>, \<^verbatim>\<open>s.startswith(p)\<close>.\<close>

definition strip :: "string \<Rightarrow> string" where
  "strip s = rev (dropWhile is_space (rev (dropWhile is_space s)))"

definition startswith :: "string \<Rightarrow> string \<Rightarrow> bool" where
  "startswith s p = (take (length p) s = p)"

text \<open>\<^verbatim>\<open>s.split(c, 1)\<close>: one piece when \<open>c\<close> does not occur, two otherwise.\<close>

definition split_once :: "char \<Rightarrow> string \<Rightarrow> string list" where
  "split_once c s =
     (case dropWhile (\<lambda>x. x \<noteq> c) s of
        [] \<Rightarrow> [s]
      | _ # after \<Rightarrow> [takeWhile (\<lambda>x. x \<noteq> c) s, after])"

text \<open>\<^verbatim>\<open>s.split(c)\<close>: every piece between occurrences of \<open>c\<close>.\<close>

fun split_char :: "char \<Rightarrow> string \<Rightarrow> string list" where
  "split_char c [] = [[]]"
| "split_char c (x # xs) =
     (if x = c then [] # split_char c xs
      else (case split_char c xs of
              [] \<Rightarrow> [[x]]
            | p # ps \<Rightarrow> (x # p) # ps))"

text \<open>\<^verbatim>\<open>s.split()\<close>: the maximal runs of characters that are not white space.\<close>

function split_ws :: "string \<Rightarrow> string list" where
  "split_ws s =
     (case dropWhile is_space s of
        [] \<Rightarrow> []
      | c # cs \<Rightarrow> takeWhile non_space (c # cs) # split_ws (dropWhile non_space (c # cs)))"
  by pat_completeness auto
termination
proof (relation "measure length")
  show "wf (measure length)" by simp
next
  fix s :: string and c cs
  assume a: "dropWhile is_space s = c # cs"
  have "non_space c"
    using a hd_dropWhile [of is_space s] by (simp add: non_space_def)
  then have "length (dropWhile non_space (c # cs)) \<le> length cs"
    by (simp add: length_dropWhile_le)
  moreover have "length (c # cs) \<le> length s"
    using a length_dropWhile_le [of is_space s] by simp
  ultimately show "(dropWhile non_space (c # cs), s) \<in> measure length"
    by simp
qed

declare split_ws.simps [simp del]

text \<open>
  \<^verbatim>\<open>s.split(maxsplit=1)\<close>: the first run, then the rest of the string after the
  white space that follows it, when anything is left.
\<close>

definition split_ws_max1 :: "string \<Rightarrow> string list" where
  "split_ws_max1 s =
     (case dropWhile is_space s of
        [] \<Rightarrow> []
      | c # cs \<Rightarrow>
          (let first = takeWhile non_space (c # cs);
               remainder = dropWhile is_space (dropWhile non_space (c # cs))
           in if remainder = [] then [first] else [first, remainder]))"

text \<open>\<^verbatim>\<open>sep.join(xs)\<close> and \<^verbatim>\<open>str(n)\<close> for a number that is not negative.\<close>

fun join :: "string \<Rightarrow> string list \<Rightarrow> string" where
  "join sep [] = []"
| "join sep [x] = x"
| "join sep (x # y # ys) = x @ sep @ join sep (y # ys)"

definition digit_char :: "nat \<Rightarrow> char" where
  "digit_char d = ''0123456789'' ! d"

function str :: "nat \<Rightarrow> string" where
  "str n = (if n < 10 then [digit_char n] else str (n div 10) @ [digit_char (n mod 10)])"
  by pat_completeness auto
termination
  by (relation "measure (\<lambda>n. n)") auto

declare str.simps [simp del]

subsection \<open>Regular expressions and \<^verbatim>\<open>re.fullmatch\<close>\<close>

text \<open>
  The patterns of the source use literals, character classes, alternation, sequence,
  \<^verbatim>\<open>?\<close>, \<^verbatim>\<open>*\<close>, \<^verbatim>\<open>+\<close> and \<^verbatim>\<open>{3}\<close>. For such patterns
  \<^verbatim>\<open>re.fullmatch(p, s)\<close> finds a match exactly when the whole of \<open>s\<close> is a word of
  the pattern; \<open>fullmatch\<close> decides that with derivatives.
\<close>

datatype rexp =
    Zero
  | One
  | Atom "char \<Rightarrow> bool"
  | Alt rexp rexp
  | Seq rexp rexp
  | Star rexp

fun nullable :: "rexp \<Rightarrow> bool" where
  "nullable Zero = False"
| "nullable One = True"
| "nullable (Atom p) = False"
| "nullable (Alt r s) = (nullable r \<or> nullable s)"
| "nullable (Seq r s) = (nullable r \<and> nullable s)"
| "nullable (Star r) = True"

fun deriv :: "char \<Rightarrow> rexp \<Rightarrow> rexp" where
  "deriv c Zero = Zero"
| "deriv c One = Zero"
| "deriv c (Atom p) = (if p c then One else Zero)"
| "deriv c (Alt r s) = Alt (deriv c r) (deriv c s)"
| "deriv c (Seq r s) =
     (if nullable r then Alt (Seq (deriv c r) s) (deriv c s) else Seq (deriv c r) s)"
| "deriv c (Star r) = Seq (deriv c r) (Star r)"

fun fullmatch :: "rexp \<Rightarrow> string \<Rightarrow> bool" where
  "fullmatch r [] = nullable r"
| "fullmatch r (c # cs) = fullmatch (deriv c r) cs"

text \<open>A literal, \<^verbatim>\<open>r?\<close>, \<^verbatim>\<open>r+\<close> and \<^verbatim>\<open>r{3}\<close>.\<close>

fun Lit :: "string \<Rightarrow> rexp" where
  "Lit [] = One"
| "Lit (c # cs) = Seq (Atom (\<lambda>x. x = c)) (Lit cs)"

definition Opt :: "rexp \<Rightarrow> rexp" where
  "Opt r = Alt r One"

definition Plus :: "rexp \<Rightarrow> rexp" where
  "Plus r = Seq r (Star r)"

definition Rep3 :: "rexp \<Rightarrow> rexp" where
  "Rep3 r = Seq r (Seq r r)"

subsection \<open>The patterns (lines 23 to 29)\<close>

text \<open>The classes \<^verbatim>\<open>[a-zA-Z_\-&%*$!?]\<close>, \<^verbatim>\<open>[a-zA-Z0-9_\-&%*$!?]\<close> and \<^verbatim>\<open>[^#\s\\]\<close>.\<close>

definition ident_start :: "char \<Rightarrow> bool" where
  "ident_start c =
     (char_range CHR ''a'' CHR ''z'' c \<or> char_range CHR ''A'' CHR ''Z'' c
      \<or> c \<in> set ''_-&%*$!?'')"

definition ident_char :: "char \<Rightarrow> bool" where
  "ident_char c =
     (char_range CHR ''a'' CHR ''z'' c \<or> char_range CHR ''A'' CHR ''Z'' c
      \<or> char_range CHR ''0'' CHR ''9'' c \<or> c \<in> set ''_-&%*$!?'')"

definition string_char :: "char \<Rightarrow> bool" where
  "string_char c = (c \<noteq> CHR ''#'' \<and> \<not> is_space c \<and> c \<noteq> CHR 0x5C)"

definition INT_CONST :: rexp where
  "INT_CONST = Seq (Lit ''int@'') (Seq (Opt (Atom (\<lambda>c. c \<in> set ''-+''))) (Plus (Atom is_digit)))"

definition BOOL_CONST :: rexp where
  "BOOL_CONST = Seq (Lit ''bool@'') (Alt (Lit ''true'') (Lit ''false''))"

definition STRING_CONST :: rexp where
  "STRING_CONST =
     Seq (Lit ''string@'')
       (Seq (Star (Atom string_char))
          (Star (Seq (Atom (\<lambda>c. c = CHR 0x5C))
                   (Seq (Rep3 (Atom is_digit)) (Star (Atom string_char))))))"

definition NIL_CONST :: rexp where
  "NIL_CONST = Lit ''nil@nil''"

text \<open>\<^verbatim>\<open>TYPE\<close> of the source; the name alone is reserved syntax.\<close>

definition TYPE_re :: rexp where
  "TYPE_re = Alt (Lit ''int'') (Alt (Lit ''bool'') (Lit ''string''))"

definition VAR :: rexp where
  "VAR =
     Seq (Alt (Lit ''LF'') (Alt (Lit ''TF'') (Lit ''GF'')))
       (Seq (Lit ''@'') (Seq (Atom ident_start) (Star (Atom ident_char))))"

definition LABEL :: rexp where
  "LABEL = Seq (Atom ident_start) (Star (Atom ident_char))"

definition const_pattern :: rexp where
  "const_pattern = Alt NIL_CONST (Alt INT_CONST (Alt BOOL_CONST STRING_CONST))"

subsection \<open>\<^verbatim>\<open>Token\<close>, \<^verbatim>\<open>Stats\<close> and the globals\<close>

record Token =
  token_type :: string
  token_value :: string

record Stats =
  loc :: nat
  comments :: nat
  labels :: "(string \<times> nat) list"
  jumps :: "(string \<times> nat) list"
  used_instructions :: "(string \<times> nat) list"
  eol :: nat

text \<open>
  What the program prints on its standard output, one value for each \<^verbatim>\<open>print\<close>:
  the two header lines, the footer, and for an instruction its opening tag (order and
  opcode), one line for each argument (number, type, value) and its closing tag.
\<close>

datatype xml_line =
    XmlDeclaration
  | ProgramOpen
  | ProgramClose
  | InstructionOpen nat string
  | ArgLine nat string string
  | InstructionClose

text \<open>The module's globals: \<^verbatim>\<open>stats\<close>, \<^verbatim>\<open>order\<close>, and the output so far.\<close>

record globals =
  stats :: Stats
  order :: nat
  printed :: "xml_line list"

definition initial_stats :: Stats where
  "initial_stats =
     \<lparr>loc = 0, comments = 0, labels = [], jumps = [], used_instructions = [], eol = 0\<rparr>"

definition initial_globals :: globals where
  "initial_globals = \<lparr>stats = initial_stats, order = 0, printed = []\<rparr>"

subsection \<open>\<^verbatim>\<open>instruction_dict\<close> (lines 31 to 71)\<close>

definition instruction_table :: "(string \<times> string list) list" where
  "instruction_table =
     [(''RETURN'', []),
      (''CREATEFRAME'', []),
      (''PUSHFRAME'', []),
      (''POPFRAME'', []),
      (''BREAK'', []),
      (''DEFVAR'', [''var'']),
      (''POPS'', [''var'']),
      (''CALL'', [''label'']),
      (''LABEL'', [''label'']),
      (''JUMP'', [''label'']),
      (''PUSHS'', [''symb'']),
      (''EXIT'', [''symb'']),
      (''DPRINT'', [''symb'']),
      (''WRITE'', [''symb'']),
      (''MOVE'', [''var'', ''symb'']),
      (''NOT'', [''var'', ''symb'']),
      (''INT2CHAR'', [''var'', ''symb'']),
      (''READ'', [''var'', ''type'']),
      (''TYPE'', [''var'', ''symb'']),
      (''STRLEN'', [''var'', ''symb'']),
      (''ADD'', [''var'', ''symb'', ''symb'']),
      (''SUB'', [''var'', ''symb'', ''symb'']),
      (''MUL'', [''var'', ''symb'', ''symb'']),
      (''IDIV'', [''var'', ''symb'', ''symb'']),
      (''LT'', [''var'', ''symb'', ''symb'']),
      (''GT'', [''var'', ''symb'', ''symb'']),
      (''EQ'', [''var'', ''symb'', ''symb'']),
      (''AND'', [''var'', ''symb'', ''symb'']),
      (''OR'', [''var'', ''symb'', ''symb'']),
      (''STRI2INT'', [''var'', ''symb'', ''symb'']),
      (''CONCAT'', [''var'', ''symb'', ''symb'']),
      (''GETCHAR'', [''var'', ''symb'', ''symb'']),
      (''SETCHAR'', [''var'', ''symb'', ''symb'']),
      (''JUMPIFEQ'', [''label'', ''symb'', ''symb'']),
      (''JUMPIFNEQ'', [''label'', ''symb'', ''symb''])]"

definition instruction_dict :: "string \<rightharpoonup> string list" where
  "instruction_dict = map_of instruction_table"

subsection \<open>\<^verbatim>\<open>match_pattern\<close> (lines 76 to 92)\<close>

definition match_pattern :: "string \<Rightarrow> error + Token" where
  "match_pattern operand =
     (if fullmatch const_pattern operand then
        Inr \<lparr>token_type = ''const'', token_value = operand\<rparr>
      else if fullmatch TYPE_re operand then
        Inr \<lparr>token_type = ''type'', token_value = operand\<rparr>
      else if fullmatch VAR operand then
        Inr \<lparr>token_type = ''var'', token_value = operand\<rparr>
      else if fullmatch LABEL operand then
        Inr \<lparr>token_type = ''label'', token_value = operand\<rparr>
      else Inl PatternMismatchError)"

subsection \<open>\<^verbatim>\<open>print_xml\<close> (lines 181 to 248)\<close>

text \<open>
  The instruction array \<^verbatim>\<open>[opcode, token, ...]\<close> is the pair of the opcode and the
  list of tokens. Lines 190 to 193 count the opcode.
\<close>

definition count_opcode :: "string \<Rightarrow> (string \<times> nat) list \<Rightarrow> (string \<times> nat) list" where
  "count_opcode opcode used =
     (case map_of used opcode of
        Some n \<Rightarrow> AList.update opcode (n + 1) used
      | None \<Rightarrow> AList.update opcode 1 used)"

text \<open>
  The loop of lines 217 to 244. \<^verbatim>\<open>token_type\<close> and \<^verbatim>\<open>token_value\<close> are
  locals of \<^verbatim>\<open>print_xml\<close>, unbound (\<open>None\<close>) until an iteration assigns them.
  \<open>assign_type_value\<close> is lines 219 to 238: for a constant that takes none of the
  four branches the locals keep what the iteration before left. Line 241 raises when
  they are unbound.
\<close>

definition assign_type_value :: "Token \<Rightarrow> (string \<times> string) option \<Rightarrow> (string \<times> string) option" where
  "assign_type_value token bound =
     (if token_type token = ''const'' then
        (if startswith (token_value token) ''string@'' then
           Some (''string'', drop (length ''string@'') (token_value token))
         else if startswith (token_value token) ''bool@'' then
           Some (''bool'', drop (length ''bool@'') (token_value token))
         else if startswith (token_value token) ''int@'' then
           Some (''int'', drop (length ''int@'') (token_value token))
         else if token_value token = ''nil'' then
           Some (''nil'', token_value token)
         else bound)
      else Some (token_type token, token_value token))"

fun print_args ::
  "Token list \<Rightarrow> nat \<Rightarrow> (string \<times> string) option \<Rightarrow> xml_line list \<Rightarrow> error + xml_line list"
where
  "print_args [] arg_counter bound out = Inr out"
| "print_args (token # rest) arg_counter bound out =
     (case assign_type_value token bound of
        None \<Rightarrow> Inl UnboundLocalError
      | Some (ty, val) \<Rightarrow>
          print_args rest (arg_counter + 1) (Some (ty, val)) (out @ [ArgLine arg_counter ty val]))"

definition print_xml :: "string \<times> Token list \<Rightarrow> globals \<Rightarrow> error + globals" where
  "print_xml instruction_array g =
     (let opcode = fst instruction_array;
          tokens = snd instruction_array;
          order' = order g + 1;
          s1 = (stats g)\<lparr>used_instructions := count_opcode opcode (used_instructions (stats g))\<rparr>
      in if opcode = ''LABEL'' \<and> tokens = [] then Inl IndexError
         else if opcode = ''LABEL'' \<and> map_of (labels s1) (token_value (hd tokens)) \<noteq> None then
           Inl DuplicateLabelError
         else
           (let s2 = (if opcode = ''LABEL''
                      then s1\<lparr>labels := AList.update (token_value (hd tokens)) order' (labels s1)\<rparr>
                      else s1)
            in if opcode \<in> set [''CALL'', ''JUMP'', ''JUMPIFEQ'', ''JUMPIFNEQ''] \<and> tokens = [] then
                 Inl IndexError
               else
                 (let s3 = (if opcode \<in> set [''CALL'', ''JUMP'', ''JUMPIFEQ'', ''JUMPIFNEQ'']
                            then s2\<lparr>jumps := AList.update (token_value (hd tokens)) order' (jumps s2)\<rparr>
                            else s2)
                  in case print_args tokens 1 None (printed g @ [InstructionOpen order' opcode]) of
                       Inl e \<Rightarrow> Inl e
                     | Inr out \<Rightarrow>
                         Inr \<lparr>stats = s3, order = order', printed = out @ [InstructionClose]\<rparr>)))"

subsection \<open>\<^verbatim>\<open>parse_instruction\<close> (lines 133 to 178)\<close>

text \<open>
  The loop of lines 147 to 169 over \<^verbatim>\<open>enumerate(arg_patterns)\<close>: \<open>i\<close> is the index,
  \<open>tokens ! i\<close> is \<^verbatim>\<open>instruction_array[i + 1]\<close>, read only when \<open>i\<close> is below the
  number of tokens. \<open>check_role\<close> is lines 154 to 169.
\<close>

definition check_role :: "string \<Rightarrow> Token \<Rightarrow> nat \<Rightarrow> error + unit" where
  "check_role pattern token i =
     (if pattern = ''var'' then
        (if token_type token \<noteq> ''var'' then Inl (RoleMismatchError (i + 1)) else Inr ())
      else if pattern = ''symb'' then
        (if token_type token \<notin> set [''var'', ''const''] then Inl (RoleMismatchError (i + 1))
         else Inr ())
      else if pattern = ''type'' then
        (if token_type token \<noteq> ''type'' then Inl (RoleMismatchError (i + 1)) else Inr ())
      else if pattern = ''label'' then
        (if token_type token \<noteq> ''label'' then Inl (RoleMismatchError (i + 1)) else Inr ())
      else Inr ())"

fun check_patterns :: "Token list \<Rightarrow> nat \<Rightarrow> string list \<Rightarrow> error + unit" where
  "check_patterns tokens i [] = Inr ()"
| "check_patterns tokens i (pattern # rest) =
     (if i \<ge> length tokens then Inl ArityError_too_few
      else
        (case check_role pattern (tokens ! i) i of
           Inl e \<Rightarrow> Inl e
         | Inr _ \<Rightarrow> check_patterns tokens (i + 1) rest))"

definition parse_instruction :: "string \<times> Token list \<Rightarrow> globals \<Rightarrow> error + globals" where
  "parse_instruction instruction_array g =
     (let opcode = fst instruction_array;
          tokens = snd instruction_array
      in case instruction_dict opcode of
           None \<Rightarrow> Inl UnknownOpcodeInParseError
         | Some arg_patterns \<Rightarrow>
             (case check_patterns tokens 0 arg_patterns of
                Inl e \<Rightarrow> Inl e
              | Inr _ \<Rightarrow>
                  if length tokens > length arg_patterns then Inl ArityError_too_many
                  else print_xml instruction_array g))"

subsection \<open>\<^verbatim>\<open>instruction_scan\<close> (lines 95 to 130)\<close>

text \<open>The loop of lines 122 to 124: the first operand that matches no pattern ends it.\<close>

fun match_operands :: "string list \<Rightarrow> error + Token list" where
  "match_operands [] = Inr []"
| "match_operands (arg # rest) =
     (case match_pattern arg of
        Inl e \<Rightarrow> Inl e
      | Inr token \<Rightarrow>
          (case match_operands rest of
             Inl e \<Rightarrow> Inl e
           | Inr tokens \<Rightarrow> Inr (token # tokens)))"

definition instruction_scan :: "string \<Rightarrow> globals \<Rightarrow> error + globals" where
  "instruction_scan instruction g =
     (if startswith instruction ''#'' \<or> strip instruction = [] then Inr g
      else
        (let parts = split_once CHR ''#'' instruction;
             instruction_part = strip (hd parts);
             g1 = (if length parts > 1
                   then g\<lparr>stats := (stats g)\<lparr>comments := comments (stats g) + 1\<rparr>\<rparr>
                   else g);
             opcode_args = split_ws_max1 instruction_part
         in case opcode_args of
              [] \<Rightarrow> Inl IndexError
            | opcode # _ \<Rightarrow>
                (let args = (if length opcode_args > 1 then opcode_args ! 1 else [])
                 in if instruction_dict opcode = None then Inl UnknownOpcodeError
                    else
                      (case match_operands (split_ws args) of
                         Inl e \<Rightarrow> Inl e
                       | Inr tokens \<Rightarrow> parse_instruction (opcode, tokens) g1))))"

subsection \<open>\<^verbatim>\<open>main\<close>: the arguments (lines 253 to 295)\<close>

text \<open>
  Lines 257 to 281: \<^verbatim>\<open>--help\<close> among the arguments ends the run, with status 0
  when it is the only argument.
\<close>

definition check_help :: "string list \<Rightarrow> error + unit" where
  "check_help args =
     (if ''--help'' \<in> set args then
        (if hd args \<noteq> ''--help'' \<or> length args > 1 then Inl HelpCombinedError
         else Inl HelpPrinted)
      else Inr ())"

text \<open>
  Lines 284 to 290. \<^verbatim>\<open>stats_files\<close> is a Python \<^verbatim>\<open>set\<close>; \<^verbatim>\<open>arg.split('=')[1]\<close>
  exists for an argument that starts with \<^verbatim>\<open>--stats=\<close>.
\<close>

definition file_name_of :: "string \<Rightarrow> string" where
  "file_name_of arg = split_char CHR ''='' arg ! 1"

fun collect_stats_files :: "string list \<Rightarrow> string set \<Rightarrow> error + string set" where
  "collect_stats_files [] stats_files = Inr stats_files"
| "collect_stats_files (arg # rest) stats_files =
     (if startswith arg ''--stats='' then
        collect_stats_files rest (insert (file_name_of arg) stats_files)
      else if arg = ''--stats'' then Inl MissingStatsFileError
      else collect_stats_files rest stats_files)"

text \<open>
  Lines 293 to 295: \<^verbatim>\<open>len(stats_files) != len(set(stats_files))\<close>, where
  \<^verbatim>\<open>set(stats_files)\<close> is a copy of the set.
\<close>

definition check_duplicate_stats_files :: "string set \<Rightarrow> error + unit" where
  "check_duplicate_stats_files stats_files =
     (if card stats_files \<noteq> card (id stats_files) then Inl ConfigurationError else Inr ())"

definition check_arguments :: "string list \<Rightarrow> error + unit" where
  "check_arguments args =
     (case check_help args of
        Inl e \<Rightarrow> Inl e
      | Inr _ \<Rightarrow>
          (case collect_stats_files args {} of
             Inl e \<Rightarrow> Inl e
           | Inr stats_files \<Rightarrow> check_duplicate_stats_files stats_files))"

subsection \<open>\<^verbatim>\<open>main\<close>: the loop over the input (lines 302 to 323)\<close>

fun read_lines :: "string list \<Rightarrow> bool \<Rightarrow> globals \<Rightarrow> error + globals" where
  "read_lines [] first_line g = Inr g"
| "read_lines (raw # rest) first_line g =
     (let line = strip raw;
          g1 = g\<lparr>stats := (stats g)\<lparr>eol := eol (stats g) + 1\<rparr>\<rparr>
      in if first_line then
           (if line \<noteq> ''.IPPcode24'' then Inl HeaderError
            else read_lines rest False g1)
         else if startswith line ''#'' then
           read_lines rest first_line
             (g1\<lparr>stats := (stats g1)\<lparr>comments := comments (stats g1) + 1\<rparr>\<rparr>)
         else if line = [] then read_lines rest first_line g1
         else
           (case instruction_scan line (g1\<lparr>stats := (stats g1)\<lparr>loc := loc (stats g1) + 1\<rparr>\<rparr>) of
              Inl e \<Rightarrow> Inl e
            | Inr g2 \<Rightarrow> read_lines rest first_line g2))"

subsection \<open>\<^verbatim>\<open>main\<close>: forward, backward and bad jumps (lines 328 to 341)\<close>

text \<open>
  The loop over \<^verbatim>\<open>stats.jumps.items()\<close>; the triple is
  \<^verbatim>\<open>(fwjumps, backjumps, badjumps)\<close>.
\<close>

fun count_jumps ::
  "(string \<times> nat) list \<Rightarrow> (string \<times> nat) list \<Rightarrow> nat \<times> nat \<times> nat \<Rightarrow> nat \<times> nat \<times> nat"
where
  "count_jumps [] label_dict counts = counts"
| "count_jumps ((label, jump_order) # rest) label_dict (fwjumps, backjumps, badjumps) =
     (case map_of label_dict label of
        None \<Rightarrow> count_jumps rest label_dict (fwjumps, backjumps, badjumps)
      | Some label_order \<Rightarrow>
          if jump_order < label_order then
            count_jumps rest label_dict (fwjumps + 1, backjumps, badjumps)
          else if jump_order > label_order then
            count_jumps rest label_dict (fwjumps, backjumps + 1, badjumps)
          else count_jumps rest label_dict (fwjumps, backjumps, badjumps + 1))"

definition jump_analysis :: "Stats \<Rightarrow> nat \<times> nat \<times> nat" where
  "jump_analysis s = count_jumps (jumps s) (labels s) (0, 0, 0)"

subsection \<open>\<^verbatim>\<open>main\<close>: the frequent instructions (lines 374 to 389)\<close>

text \<open>
  \<^verbatim>\<open>stats.loc * 0.35\<close> is a product of binary64 numbers: Python converts
  \<^verbatim>\<open>stats.loc\<close> to the nearest binary64 number (ties to even, \<^verbatim>\<open>OverflowError\<close>
  from \<open>2 ^ 1024\<close> on), multiplies it by the binary64 number written \<^verbatim>\<open>0.35\<close>, which
  is \<open>6305039478318694 / 2 ^ 54\<close>, and rounds the product to the nearest binary64
  number. \<open>round_sig53\<close> rounds a natural number to 53 significant bits, and the
  threshold is kept as the natural number \<open>threshold * 2 ^ 54\<close>. Python compares
  the integer \<^verbatim>\<open>current_capacity\<close> with the threshold exactly.
\<close>

function bit_length :: "nat \<Rightarrow> nat" where
  "bit_length n = (if n = 0 then 0 else Suc (bit_length (n div 2)))"
  by pat_completeness auto
termination
  by (relation "measure (\<lambda>n. n)") auto

declare bit_length.simps [simp del]

definition round_half_even :: "nat \<Rightarrow> nat \<Rightarrow> nat" where
  "round_half_even m d =
     (let q = m div d; r = m mod d
      in if 2 * r < d then q
         else if 2 * r > d then q + 1
         else if even q then q else q + 1)"

definition round_sig53 :: "nat \<Rightarrow> nat" where
  "round_sig53 m =
     (if bit_length m \<le> 53 then m
      else round_half_even m (2 ^ (bit_length m - 53)) * 2 ^ (bit_length m - 53))"

definition float_of_int :: "nat \<Rightarrow> error + nat" where
  "float_of_int n = (if round_sig53 n \<ge> 2 ^ 1024 then Inl OverflowError else Inr (round_sig53 n))"

definition threshold_of :: "nat \<Rightarrow> error + nat" where
  "threshold_of n =
     (case float_of_int n of
        Inl e \<Rightarrow> Inl e
      | Inr x \<Rightarrow> Inr (round_sig53 (x * 6305039478318694)))"

text \<open>
  The \<^verbatim>\<open>while\<close> loop of lines 379 to 384. \<^verbatim>\<open>max\<close> of no values raises
  \<^verbatim>\<open>ValueError\<close>; the instruction taken is the first key, in the order of the
  dictionary, that has the greatest count; \<^verbatim>\<open>del\<close> removes it from
  \<^verbatim>\<open>stats.used_instructions\<close> itself.
\<close>

definition first_with_count :: "nat \<Rightarrow> (string \<times> nat) list \<Rightarrow> string" where
  "first_with_count n used = fst (hd (filter (\<lambda>kv. snd kv = n) used))"

function frequent_loop ::
  "nat \<Rightarrow> (string \<times> nat) list \<Rightarrow> nat \<Rightarrow> string list
     \<Rightarrow> error + (string list \<times> (string \<times> nat) list)"
where
  "frequent_loop threshold used current_capacity buffer =
     (if current_capacity * 2 ^ 54 < threshold then
        (if used = [] then Inl ValueError
         else
           (let max_usage = Max (set (map snd used));
                frequent_instr = first_with_count max_usage used
            in frequent_loop threshold (AList.delete frequent_instr used)
                 (current_capacity + max_usage) (buffer @ [frequent_instr])))
      else Inr (buffer, used))"
  by pat_completeness auto
termination
proof (relation "measure (\<lambda>(threshold, used, current_capacity, buffer). length used)")
  show "wf (measure (\<lambda>(threshold, used, current_capacity, buffer). length used))"
    by simp
next
  fix threshold :: nat and used :: "(string \<times> nat) list" and current_capacity :: nat
    and buffer :: "string list" and max_usage frequent_instr
  assume ne: "used \<noteq> []"
    and m: "max_usage = Max (set (map snd used))"
    and k: "frequent_instr = first_with_count max_usage used"
  have "max_usage \<in> set (map snd used)"
    unfolding m using ne by (intro Max_in) auto
  then obtain kv where kv: "kv \<in> set used" "snd kv = max_usage"
    by auto
  then have "kv \<in> set (filter (\<lambda>kv. snd kv = max_usage) used)"
    by simp
  then have "filter (\<lambda>kv. snd kv = max_usage) used \<noteq> []"
    by (metis empty_iff empty_set)
  then have "hd (filter (\<lambda>kv. snd kv = max_usage) used)
               \<in> set (filter (\<lambda>kv. snd kv = max_usage) used)"
    by (rule hd_in_set)
  then have "hd (filter (\<lambda>kv. snd kv = max_usage) used) \<in> set used"
    by simp
  then obtain x where "x \<in> set used" "\<not> (case x of (k', _) \<Rightarrow> frequent_instr \<noteq> k')"
    unfolding k first_with_count_def by (auto simp: case_prod_beta)
  then have "length (filter (\<lambda>(k', _). frequent_instr \<noteq> k') used) < length used"
    by (rule length_filter_less)
  then show "((threshold, AList.delete frequent_instr used, current_capacity + max_usage,
                buffer @ [frequent_instr]),
              (threshold, used, current_capacity, buffer))
             \<in> measure (\<lambda>(threshold, used, current_capacity, buffer). length used)"
    by (simp add: AList.delete_eq)
qed

declare frequent_loop.simps [simp del]

text \<open>
  Lines 374 to 389 without the two writes: the sorted buffer, and the statistics with
  the taken instructions removed.
\<close>

definition frequent :: "Stats \<Rightarrow> error + (string list \<times> Stats)" where
  "frequent s =
     (case threshold_of (loc s) of
        Inl e \<Rightarrow> Inl e
      | Inr threshold \<Rightarrow>
          (case frequent_loop threshold (used_instructions s) 0 [] of
             Inl e \<Rightarrow> Inl e
           | Inr (buffer, used) \<Rightarrow> Inr (sort buffer, s\<lparr>used_instructions := used\<rparr>)))"

subsection \<open>\<^verbatim>\<open>main\<close>: writing the statistics (lines 343 to 392)\<close>

text \<open>
  The files are a map from a name to the content written; \<^verbatim>\<open>open(filename, 'w')\<close>
  is taken to succeed, and leaves the file empty. \<open>filename\<close> names the file that
  \<^verbatim>\<open>f\<close> writes to. The counts of the jumps are \<open>None\<close> when lines 329 to 341 did
  not run, and reading them raises then.
\<close>

definition open_w :: "string \<Rightarrow> (string \<rightharpoonup> string) \<Rightarrow> (string \<rightharpoonup> string)" where
  "open_w filename files = files(filename \<mapsto> [])"

definition write_to :: "string \<Rightarrow> string \<Rightarrow> (string \<rightharpoonup> string) \<Rightarrow> (string \<rightharpoonup> string)" where
  "write_to filename text files =
     (case files filename of
        None \<Rightarrow> files(filename \<mapsto> text)
      | Some content \<Rightarrow> files(filename \<mapsto> content @ text))"

definition newline :: string where
  "newline = [CHR 0x0A]"

fun write_stats ::
  "string list \<Rightarrow> string \<Rightarrow> (nat \<times> nat \<times> nat) option \<Rightarrow> Stats \<Rightarrow> (string \<rightharpoonup> string)
     \<Rightarrow> error + (Stats \<times> (string \<rightharpoonup> string))"
where
  "write_stats [] filename counts s files = Inr (s, files)"
| "write_stats (arg # rest) filename counts s files =
     (if startswith arg ''--stats='' then
        write_stats rest (file_name_of arg) counts s (open_w (file_name_of arg) files)
      else if arg = ''--loc'' then
        write_stats rest filename counts s (write_to filename (str (loc s) @ newline) files)
      else if arg = ''--comments'' then
        write_stats rest filename counts s (write_to filename (str (comments s) @ newline) files)
      else if arg = ''--labels'' then
        write_stats rest filename counts s
          (write_to filename (str (length (labels s)) @ newline) files)
      else if arg = ''--jumps'' then
        write_stats rest filename counts s
          (write_to filename (str (length (jumps s)) @ newline) files)
      else if startswith arg ''--print='' then
        write_stats rest filename counts s (write_to filename (file_name_of arg @ newline) files)
      else if arg = ''--eol'' then
        write_stats rest filename counts s (write_to filename (str (eol s) @ newline) files)
      else if arg = ''--fwjumps'' then
        (case counts of
           None \<Rightarrow> Inl UnboundLocalError
         | Some (fwjumps, backjumps, badjumps) \<Rightarrow>
             write_stats rest filename counts s (write_to filename (str fwjumps @ newline) files))
      else if arg = ''--backjumps'' then
        (case counts of
           None \<Rightarrow> Inl UnboundLocalError
         | Some (fwjumps, backjumps, badjumps) \<Rightarrow>
             write_stats rest filename counts s (write_to filename (str backjumps @ newline) files))
      else if arg = ''--badjumps'' then
        (case counts of
           None \<Rightarrow> Inl UnboundLocalError
         | Some (fwjumps, backjumps, badjumps) \<Rightarrow>
             write_stats rest filename counts s (write_to filename (str badjumps @ newline) files))
      else if arg = ''--frequent'' then
        (case frequent s of
           Inl e \<Rightarrow> Inl e
         | Inr (buffer, s') \<Rightarrow>
             write_stats rest filename counts s'
               (write_to filename newline (write_to filename (join '','' buffer) files)))
      else Inl UnknownArgumentError)"

subsection \<open>\<^verbatim>\<open>main\<close> (lines 251 to 392)\<close>

text \<open>
  The arguments, the lines of the standard input and the files before the run; the
  globals and the files after it. \<open>after_input\<close> is the program up to line 326,
  \<open>post_pass\<close> the rest.
\<close>

definition after_input :: "string list \<Rightarrow> string list \<Rightarrow> error + globals" where
  "after_input args input =
     (case check_arguments args of
        Inl e \<Rightarrow> Inl e
      | Inr _ \<Rightarrow>
          (case read_lines input True (initial_globals\<lparr>printed := [XmlDeclaration, ProgramOpen]\<rparr>) of
             Inl e \<Rightarrow> Inl e
           | Inr g \<Rightarrow> Inr (g\<lparr>printed := printed g @ [ProgramClose]\<rparr>)))"

definition post_pass ::
  "string list \<Rightarrow> Stats \<Rightarrow> (string \<rightharpoonup> string) \<Rightarrow> error + (Stats \<times> (string \<rightharpoonup> string))"
where
  "post_pass args s files =
     (let counts = (if length args > 0 \<and> \<not> startswith (hd args) ''--help''
                    then Some (jump_analysis s) else None)
      in if length args > 0 \<and> startswith (hd args) ''--stats='' then
           write_stats (tl args) (file_name_of (hd args)) counts s
             (open_w (file_name_of (hd args)) files)
         else Inr (s, files))"

definition main ::
  "string list \<Rightarrow> string list \<Rightarrow> (string \<rightharpoonup> string) \<Rightarrow> error + (globals \<times> (string \<rightharpoonup> string))"
where
  "main args input files =
     (case after_input args input of
        Inl e \<Rightarrow> Inl e
      | Inr g \<Rightarrow>
          (case post_pass args (stats g) files of
             Inl e \<Rightarrow> Inl e
           | Inr (s, files') \<Rightarrow> Inr (g\<lparr>stats := s\<rparr>, files')))"

section \<open>Notions of the specification\<close>

text \<open>
  The first line of the input that is not discarded: the first line that is neither
  empty after trimming nor a comment line, trimmed.
\<close>

definition first_non_discarded :: "string list \<Rightarrow> string option" where
  "first_non_discarded input =
     map_option strip (find (\<lambda>raw. strip raw \<noteq> [] \<and> \<not> startswith (strip raw) ''#'') input)"

text \<open>
  \<open>g1\<close> is \<open>g\<close>, or \<open>g\<close> with one more comment counted: what line 107 can do.
\<close>

definition comment_counted :: "globals \<Rightarrow> globals \<Rightarrow> bool" where
  "comment_counted g g1 =
     (g1 = g \<or> g1 = g\<lparr>stats := (stats g)\<lparr>comments := comments (stats g) + 1\<rparr>\<rparr>)"

text \<open>
  What the passes after the input may change in the statistics: nothing but the
  dictionary of the used instructions, from which keys are removed.
\<close>

definition only_removed :: "Stats \<Rightarrow> Stats \<Rightarrow> bool" where
  "only_removed s s' =
     (loc s' = loc s \<and> comments s' = comments s \<and> eol s' = eol s
      \<and> labels s' = labels s \<and> jumps s' = jumps s
      \<and> (\<exists>removed. used_instructions s' =
            filter (\<lambda>kv. fst kv \<notin> set removed) (used_instructions s)))"

text \<open>
  The positions of the instructions printed, in the order printed, and the lines of the
  input that are instruction lines: neither empty after trimming nor comment lines.
\<close>

fun positions :: "xml_line list \<Rightarrow> nat list" where
  "positions [] = []"
| "positions (InstructionOpen n opcode # rest) = n # positions rest"
| "positions (other # rest) = positions rest"

definition instruction_line :: "string \<Rightarrow> bool" where
  "instruction_line raw = (strip raw \<noteq> [] \<and> \<not> startswith (strip raw) ''#'')"

text \<open>
  A source line made of an opcode and raw operands, a space before each operand.
\<close>

definition source_line :: "string \<Rightarrow> string list \<Rightarrow> string" where
  "source_line opcode operands = opcode @ concat (map (\<lambda>operand. CHR '' '' # operand) operands)"

text \<open>The three type keywords.\<close>

definition type_keywords :: "string list" where
  "type_keywords = [''int'', ''bool'', ''string'']"

text \<open>No type keyword is a key of the labels or of the jump references.\<close>

definition no_keyword_keys :: "Stats \<Rightarrow> bool" where
  "no_keyword_keys s =
     list_all (\<lambda>kw. map_of (labels s) kw = None \<and> map_of (jumps s) kw = None) type_keywords"
















section \<open>Properties\<close>

subsection \<open>The arguments\<close>

lemma collect_stats_files_error:
  "collect_stats_files args stats_files = Inl e \<Longrightarrow> e = MissingStatsFileError"
  by (induction args arbitrary: stats_files) (auto split: if_splits)

lemma check_duplicate_stats_files_passes: "check_duplicate_stats_files stats_files = Inr ()"
  by (simp add: check_duplicate_stats_files_def)

text \<open>
  Claim C5 says that naming the same statistics file in two \<^verbatim>\<open>--stats=\<close> arguments
  ends the run with \<open>ConfigurationError\<close> before any input is read. The source collects
  the names in a set and compares the size of the set with the size of a copy of it, so
  the test of line 293 never holds: the arguments \<^verbatim>\<open>--stats=a --stats=a\<close> pass the
  check, no argument list ends with \<open>ConfigurationError\<close>, and the run reads its input,
  prints the instructions and opens the file \<^verbatim>\<open>a\<close> twice.
\<close>

theorem duplicate_stats_file_not_detected:
  "check_arguments [''--stats=a'', ''--stats=a''] = Inr ()
   \<and> check_arguments args \<noteq> Inl ConfigurationError
   \<and> (case main [''--stats=a'', ''--stats=a''] [''.IPPcode24'', ''BREAK''] Map.empty of
         Inl e \<Rightarrow> False
       | Inr (g, files) \<Rightarrow>
           printed g = [XmlDeclaration, ProgramOpen, InstructionOpen 1 ''BREAK'',
                        InstructionClose, ProgramClose]
           \<and> files ''a'' = Some [])"
proof -
  have 1: "check_arguments [''--stats=a'', ''--stats=a''] = Inr ()"
    by code_simp
  have 2: "check_arguments args \<noteq> Inl ConfigurationError"
    by (auto simp: check_arguments_def check_help_def check_duplicate_stats_files_passes
        split: sum.splits dest: collect_stats_files_error)
  have 3: "case main [''--stats=a'', ''--stats=a''] [''.IPPcode24'', ''BREAK''] Map.empty of
         Inl e \<Rightarrow> False
       | Inr (g, files) \<Rightarrow>
           printed g = [XmlDeclaration, ProgramOpen, InstructionOpen 1 ''BREAK'',
                        InstructionClose, ProgramClose]
           \<and> files ''a'' = Some []"
    by code_simp
  from 1 2 3 show ?thesis by blast
qed

subsection \<open>The jump scenario\<close>

text \<open>
  Claim C2 says that for the program \<^verbatim>\<open>JUMP x\<close>, \<^verbatim>\<open>LABEL x\<close>, \<^verbatim>\<open>JUMP x\<close> the
  analysis counts one forward and one backward jump, with one label and one jump
  reference. The analysis runs over the jump references, and the only one left is
  \<open>x\<close> at position 3: the claim fails on the count of forward jumps.
\<close>

theorem jump_scenario_not_one_forward:
  "\<not> (case after_input [''--stats=out'', ''--fwjumps'', ''--backjumps'']
            [''.IPPcode24'', ''JUMP x'', ''LABEL x'', ''JUMP x''] of
         Inl e \<Rightarrow> False
       | Inr g \<Rightarrow>
           fst (jump_analysis (stats g)) = 1
           \<and> fst (snd (jump_analysis (stats g))) = 1
           \<and> length (labels (stats g)) = 1
           \<and> length (jumps (stats g)) = 1)"
  by code_simp

text \<open>
  Claim C2 as amended: for that program the analysis counts no forward jump, one
  backward jump and no bad jump; the labels have the one entry \<open>x\<close> at position 2 and
  the jump references the one entry \<open>x\<close> at position 3, the reference at position 1
  having been overwritten.
\<close>

theorem jump_scenario_counts:
  "case after_input [''--stats=out'', ''--fwjumps'', ''--backjumps'']
          [''.IPPcode24'', ''JUMP x'', ''LABEL x'', ''JUMP x''] of
     Inl e \<Rightarrow> False
   | Inr g \<Rightarrow>
       jump_analysis (stats g) = (0, 1, 0)
       \<and> labels (stats g) = [(''x'', 2)]
       \<and> jumps (stats g) = [(''x'', 3)]
       \<and> length (labels (stats g)) = 1
       \<and> length (jumps (stats g)) = 1"
  by code_simp

subsection \<open>The constant \<^verbatim>\<open>nil@nil\<close>\<close>

text \<open>
  Claim C3 says that a constant is decoded to its sub-kind and its value without the
  prefix, and \<^verbatim>\<open>nil@nil\<close> to the sub-kind \<open>nil\<close> with the value \<open>nil\<close>. Line 233
  compares the value of the token with \<^verbatim>\<open>nil\<close>, and the value of the token is
  \<^verbatim>\<open>nil@nil\<close>: no branch assigns. \<^verbatim>\<open>PUSHS nil@nil\<close> ends the run with
  \<^verbatim>\<open>UnboundLocalError\<close>, and \<^verbatim>\<open>MOVE GF@a nil@nil\<close> prints the type and the value
  of the first argument again for the second.
\<close>

theorem nil_constant_not_decoded:
  "match_pattern ''nil@nil'' = Inr \<lparr>token_type = ''const'', token_value = ''nil@nil''\<rparr>
   \<and> assign_type_value \<lparr>token_type = ''const'', token_value = ''nil@nil''\<rparr> None = None
   \<and> after_input [] [''.IPPcode24'', ''PUSHS nil@nil''] = Inl UnboundLocalError
   \<and> (case after_input [] [''.IPPcode24'', ''MOVE GF@a nil@nil''] of
         Inl e \<Rightarrow> False
       | Inr g \<Rightarrow>
           printed g = [XmlDeclaration, ProgramOpen, InstructionOpen 1 ''MOVE'',
                        ArgLine 1 ''var'' ''GF@a'', ArgLine 2 ''var'' ''GF@a'',
                        InstructionClose, ProgramClose])"
  by code_simp

subsection \<open>Errors of the scan, and the header\<close>

lemma print_args_error: "print_args tokens n bound out = Inl e \<Longrightarrow> e = UnboundLocalError"
  by (induction tokens arbitrary: n bound out) (auto split: option.splits)

lemma print_xml_error:
  "print_xml ia g = Inl e \<Longrightarrow> e \<in> {IndexError, DuplicateLabelError, UnboundLocalError}"
  by (auto simp: print_xml_def Let_def split: if_splits sum.splits dest: print_args_error)

lemma check_role_error: "check_role p t i = Inl e \<Longrightarrow> e = RoleMismatchError (i + 1)"
  by (auto simp: check_role_def split: if_splits)

lemma check_patterns_error:
  "check_patterns tokens i ps = Inl e \<Longrightarrow> e = ArityError_too_few \<or> (\<exists>j. e = RoleMismatchError j)"
  by (induction ps arbitrary: i) (auto split: if_splits sum.splits dest: check_role_error)

lemma parse_instruction_error:
  "parse_instruction ia g = Inl e \<Longrightarrow> e \<noteq> HeaderError \<and> e \<noteq> UnknownOpcodeError \<and> e \<noteq> PatternMismatchError"
  by (auto simp: parse_instruction_def Let_def split: option.splits sum.splits if_splits
      dest: check_patterns_error print_xml_error)

lemma match_operands_error: "match_operands args = Inl e \<Longrightarrow> e = PatternMismatchError"
  by (induction args arbitrary: e) (auto simp: match_pattern_def split: sum.splits if_splits)

lemma instruction_scan_unfold:
  assumes "\<not> (startswith line ''#'' \<or> strip line = [])"
  obtains g1 where "comment_counted g g1"
    and "instruction_scan line g =
      (case split_ws_max1 (strip (hd (split_once CHR ''#'' line))) of
         [] \<Rightarrow> Inl IndexError
       | opcode # others \<Rightarrow>
           if instruction_dict opcode = None then Inl UnknownOpcodeError
           else
             (case match_operands (split_ws (if others \<noteq> [] then hd others else [])) of
                Inl e \<Rightarrow> Inl e
              | Inr tokens \<Rightarrow> parse_instruction (opcode, tokens) g1))"
proof -
  let ?g1 = "if length (split_once CHR ''#'' line) > 1
             then g\<lparr>stats := (stats g)\<lparr>comments := comments (stats g) + 1\<rparr>\<rparr> else g"
  have 1: "comment_counted g ?g1"
    by (simp add: comment_counted_def)
  have 2: "instruction_scan line g =
      (case split_ws_max1 (strip (hd (split_once CHR ''#'' line))) of
         [] \<Rightarrow> Inl IndexError
       | opcode # others \<Rightarrow>
           if instruction_dict opcode = None then Inl UnknownOpcodeError
           else
             (case match_operands (split_ws (if others \<noteq> [] then hd others else [])) of
                Inl e \<Rightarrow> Inl e
              | Inr tokens \<Rightarrow> parse_instruction (opcode, tokens) ?g1))"
    using assms
    by (cases "split_ws_max1 (strip (hd (split_once CHR ''#'' line)))")
       (simp_all add: instruction_scan_def Let_def hd_conv_nth)
  from 1 2 show ?thesis by (rule that)
qed

lemma instruction_scan_error:
  assumes "instruction_scan line g = Inl e"
  shows "e \<noteq> HeaderError"
proof (cases "startswith line ''#'' \<or> strip line = []")
  case True
  then show ?thesis
    using assms by (simp add: instruction_scan_def)
next
  case False
  then obtain g1 where eq: "instruction_scan line g =
      (case split_ws_max1 (strip (hd (split_once CHR ''#'' line))) of
         [] \<Rightarrow> Inl IndexError
       | opcode # others \<Rightarrow>
           if instruction_dict opcode = None then Inl UnknownOpcodeError
           else
             (case match_operands (split_ws (if others \<noteq> [] then hd others else [])) of
                Inl e \<Rightarrow> Inl e
              | Inr tokens \<Rightarrow> parse_instruction (opcode, tokens) g1))"
    by (rule instruction_scan_unfold)
  show ?thesis
    using assms unfolding eq
    by (auto split: list.splits if_splits sum.splits
        dest: match_operands_error parse_instruction_error)
qed

lemma read_lines_no_header_error: "read_lines input False g \<noteq> Inl HeaderError"
proof (induction input arbitrary: g)
  case Nil
  then show ?case by simp
next
  case (Cons raw rest)
  show ?case
    using Cons.IH by (auto simp: Let_def split: sum.splits dest: instruction_scan_error)
qed

lemma check_arguments_error: "check_arguments args \<noteq> Inl HeaderError"
  by (auto simp: check_arguments_def check_help_def check_duplicate_stats_files_def
      split: sum.splits dest: collect_stats_files_error)

lemma after_input_header_ok:
  assumes "input \<noteq> []" and "strip (hd input) = ''.IPPcode24''"
  shows "after_input args input \<noteq> Inl HeaderError"
proof -
  obtain raw rest where input: "input = raw # rest"
    using assms(1) by (cases input) auto
  have "read_lines input True g \<noteq> Inl HeaderError" for g
    using assms(2) read_lines_no_header_error by (simp add: input Let_def)
  then show ?thesis
    using check_arguments_error [of args]
    by (auto simp: after_input_def split: sum.splits)
qed

lemma after_input_header_missing:
  assumes "check_arguments args = Inr ()" and "input \<noteq> []" and "strip (hd input) \<noteq> ''.IPPcode24''"
  shows "after_input args input = Inl HeaderError"
proof -
  obtain raw rest where input: "input = raw # rest"
    using assms(2) by (cases input) auto
  show ?thesis
    using assms(1,3) by (simp add: after_input_def input Let_def)
qed

lemma first_non_discarded_differs:
  assumes "first_non_discarded input = Some line" and "line \<noteq> ''.IPPcode24''"
  shows "input \<noteq> [] \<and> strip (hd input) \<noteq> ''.IPPcode24''"
proof (cases input)
  case Nil
  then show ?thesis using assms by (simp add: first_non_discarded_def)
next
  case (Cons raw rest)
  show ?thesis
  proof (cases "strip raw = ''.IPPcode24''")
    case True
    then have "first_non_discarded input = Some ''.IPPcode24''"
      by (simp add: first_non_discarded_def Cons startswith_def)
    then show ?thesis using assms by simp
  next
    case False
    then show ?thesis by (simp add: Cons)
  qed
qed

text \<open>
  Claim C7 as amended: when the first line of the input, trimmed, is the header, no
  header error is raised; when the first line that is not discarded differs from the
  header, and also whenever the first line, trimmed, differs from it (a comment or an
  empty line before the header), the run ends with the header error, whatever follows.
  The arguments are taken to pass their own checks, which come first.
\<close>

theorem header_check:
  "(input \<noteq> [] \<and> strip (hd input) = ''.IPPcode24'' \<longrightarrow> after_input args input \<noteq> Inl HeaderError)
   \<and> (check_arguments args = Inr () \<and> first_non_discarded input = Some line
        \<and> line \<noteq> ''.IPPcode24'' \<longrightarrow> after_input args input = Inl HeaderError)
   \<and> (check_arguments args = Inr () \<and> input \<noteq> [] \<and> strip (hd input) \<noteq> ''.IPPcode24''
        \<longrightarrow> after_input args input = Inl HeaderError)"
  using after_input_header_ok after_input_header_missing first_non_discarded_differs
  by blast

theorem header_check_witness:
  "strip (hd [''.IPPcode24'', ''BREAK'']) = ''.IPPcode24''
   \<and> after_input [] [''.IPPcode24'', ''BREAK''] \<noteq> Inl HeaderError
   \<and> check_arguments [] = Inr ()
   \<and> first_non_discarded [''# comment'', ''DEFVAR GF@a''] = Some ''DEFVAR GF@a''
   \<and> after_input [] [''# comment'', ''DEFVAR GF@a''] = Inl HeaderError"
proof -
  have 1: "strip (hd [''.IPPcode24'', ''BREAK'']) = ''.IPPcode24''"
    by code_simp
  have 2: "check_arguments [] = Inr ()"
    by code_simp
  have 3: "first_non_discarded [''# comment'', ''DEFVAR GF@a''] = Some ''DEFVAR GF@a''"
    by code_simp
  show ?thesis
    using 1 2 3
      header_check [of "[''.IPPcode24'', ''BREAK'']" "[]" "''DEFVAR GF@a''"]
      header_check [of "[''# comment'', ''DEFVAR GF@a'']" "[]" "''DEFVAR GF@a''"]
    by simp
qed

text \<open>
  Claim C7 says that no header error is raised when the first line that is not discarded
  is the header. The loop tests the very first line: a comment line before the header
  ends the run with the header error.
\<close>

theorem header_after_comment_rejected:
  "first_non_discarded [''# comment'', ''.IPPcode24''] = Some ''.IPPcode24''
   \<and> after_input [] [''# comment'', ''.IPPcode24''] = Inl HeaderError"
  by code_simp

subsection \<open>The passes after the input\<close>

lemma only_removed_refl: "only_removed s s"
proof -
  have "used_instructions s = filter (\<lambda>kv. fst kv \<notin> set []) (used_instructions s)"
    by simp
  then show ?thesis
    unfolding only_removed_def by blast
qed

lemma only_removed_trans:
  assumes "only_removed s s'" and "only_removed s' s''"
  shows "only_removed s s''"
proof -
  obtain r1 where r1: "used_instructions s' = filter (\<lambda>kv. fst kv \<notin> set r1) (used_instructions s)"
    using assms(1) unfolding only_removed_def by blast
  obtain r2 where r2: "used_instructions s'' = filter (\<lambda>kv. fst kv \<notin> set r2) (used_instructions s')"
    using assms(2) unfolding only_removed_def by blast
  have "used_instructions s'' = filter (\<lambda>kv. fst kv \<notin> set (r1 @ r2)) (used_instructions s)"
    unfolding r2 r1 by (auto intro: filter_cong)
  then show ?thesis
    using assms unfolding only_removed_def by metis
qed

lemma frequent_loop_removes:
  "frequent_loop threshold used capacity buffer = Inr (buffer', used')
   \<Longrightarrow> \<exists>taken. buffer' = buffer @ taken \<and> used' = filter (\<lambda>kv. fst kv \<notin> set taken) used"
proof (induction threshold used capacity buffer rule: frequent_loop.induct)
  case (1 threshold used capacity buffer)
  show ?case
  proof (cases "capacity * 2 ^ 54 < threshold")
    case False
    then have "buffer' = buffer" "used' = used"
      using "1.prems" by (simp_all add: frequent_loop.simps [of threshold used capacity buffer])
    then have "buffer' = buffer @ [] \<and> used' = filter (\<lambda>kv. fst kv \<notin> set []) used"
      by simp
    then show ?thesis by blast
  next
    case True
    then have ne: "used \<noteq> []"
      using "1.prems" by (auto simp: frequent_loop.simps [of threshold used capacity buffer])
    define m where "m = Max (set (map snd used))"
    define k where "k = first_with_count m used"
    have rec: "frequent_loop threshold (AList.delete k used) (capacity + m) (buffer @ [k])
                 = Inr (buffer', used')"
      using "1.prems" True ne
      by (simp add: frequent_loop.simps [of threshold used capacity buffer] m_def k_def Let_def)
    obtain taken where t: "buffer' = (buffer @ [k]) @ taken"
        "used' = filter (\<lambda>kv. fst kv \<notin> set taken) (AList.delete k used)"
      using "1.IH" [OF True ne m_def k_def rec] by blast
    have "used' = filter (\<lambda>kv. fst kv \<notin> set (k # taken)) used"
      unfolding t(2) AList.delete_eq by (auto intro: filter_cong)
    moreover have "buffer' = buffer @ (k # taken)"
      using t(1) by simp
    ultimately show ?thesis by blast
  qed
qed

lemma frequent_only_removed:
  assumes "frequent s = Inr (buffer, s')"
  shows "only_removed s s'"
proof -
  obtain threshold where th: "threshold_of (loc s) = Inr threshold"
    using assms by (auto simp: frequent_def split: sum.splits)
  obtain b used' where fl: "frequent_loop threshold (used_instructions s) 0 [] = Inr (b, used')"
    and s': "s' = s\<lparr>used_instructions := used'\<rparr>"
    using assms th by (auto simp: frequent_def split: sum.splits)
  obtain taken where "used' = filter (\<lambda>kv. fst kv \<notin> set taken) (used_instructions s)"
    using frequent_loop_removes [OF fl] by blast
  then show ?thesis
    unfolding only_removed_def s' by auto
qed

lemma write_stats_only_removed:
  "write_stats args filename counts s files = Inr (s', files') \<Longrightarrow> only_removed s s'"
proof (induction args arbitrary: filename s files)
  case Nil
  then show ?case by (simp add: only_removed_refl)
next
  case (Cons arg rest)
  show ?case
  proof (cases "arg = ''--frequent''")
    case True
    then obtain buffer s1 where f: "frequent s = Inr (buffer, s1)"
      and rec: "write_stats rest filename counts s1
                  (write_to filename newline (write_to filename (join '','' buffer) files))
                = Inr (s', files')"
      using Cons.prems by (auto simp: startswith_def split: sum.splits)
    show ?thesis
      using only_removed_trans [OF frequent_only_removed [OF f] Cons.IH [OF rec]] .
  next
    case False
    then obtain filename1 files1 where
      "write_stats rest filename1 counts s files1 = Inr (s', files')"
      using Cons.prems by (auto split: if_splits option.splits)
    then show ?thesis
      by (rule Cons.IH)
  qed
qed

lemma write_stats_without_frequent:
  "write_stats args filename counts s files = Inr (s', files') \<Longrightarrow> ''--frequent'' \<notin> set args
   \<Longrightarrow> s' = s"
proof (induction args arbitrary: filename files)
  case Nil
  then show ?case by simp
next
  case (Cons arg rest)
  from Cons.prems(2) have nf: "arg \<noteq> ''--frequent''" "''--frequent'' \<notin> set rest"
    by auto
  obtain filename1 files1 where
    "write_stats rest filename1 counts s files1 = Inr (s', files')"
    using Cons.prems(1) nf(1) by (auto split: if_splits option.splits)
  then show ?case
    using nf(2) by (rule Cons.IH)
qed












subsection \<open>Trimming\<close>

lemma post_pass_only_removed:
  assumes "post_pass args s files = Inr (s', files')"
  shows "only_removed s s'"
  using assms
  by (auto simp: post_pass_def Let_def only_removed_refl split: if_splits
      dest: write_stats_only_removed)

lemma strip_ends:
  assumes "strip s \<noteq> []"
  shows "\<not> is_space (hd (strip s)) \<and> \<not> is_space (last (strip s))"
proof -
  let ?u = "dropWhile is_space s"
  let ?d = "dropWhile is_space (rev ?u)"
  have d: "?d \<noteq> []"
    using assms by (simp add: strip_def)
  then have l: "\<not> is_space (hd ?d)"
    by (rule hd_dropWhile)
  have "rev ?u = takeWhile is_space (rev ?u) @ ?d"
    by simp
  then have "?u = rev ?d @ rev (takeWhile is_space (rev ?u))"
    by (metis rev_append rev_rev_ident)
  then have u: "?u = strip s @ rev (takeWhile is_space (rev ?u))"
    by (simp add: strip_def)
  then have "?u \<noteq> []"
    using assms by (metis append_is_Nil_conv)
  then have "\<not> is_space (hd ?u)"
    by (rule hd_dropWhile)
  moreover have "hd ?u = hd (strip s)"
    using u assms by (metis hd_append2)
  moreover have "last (strip s) = hd ?d"
    using d by (simp add: strip_def last_rev)
  ultimately show ?thesis
    using l by simp
qed

lemma strip_fixed:
  assumes "t \<noteq> []" and "\<not> is_space (hd t)" and "\<not> is_space (last t)"
  shows "strip t = t"
proof -
  have 1: "dropWhile is_space t = t"
    using assms(1,2) by (cases t) auto
  have "rev t \<noteq> []" "\<not> is_space (hd (rev t))"
    using assms(1,3) by (simp_all add: hd_rev)
  then have 2: "dropWhile is_space (rev t) = rev t"
    by (cases "rev t") auto
  show ?thesis
    by (simp add: strip_def 1 2)
qed

lemma strip_strip: "strip (strip s) = strip s"
proof (cases "strip s = []")
  case True
  have "strip [] = []"
    by (simp add: strip_def)
  with True show ?thesis by simp
next
  case False
  then show ?thesis
    using strip_ends [OF False] by (intro strip_fixed) auto
qed

subsection \<open>The positions of the instructions\<close>

lemma positions_append: "positions (xs @ ys) = positions xs @ positions ys"
  by (induction xs rule: positions.induct) auto

lemma print_args_positions:
  "print_args tokens n bound out = Inr out' \<Longrightarrow> positions out' = positions out"
  by (induction tokens arbitrary: n bound out)
     (auto simp: positions_append split: option.splits)

lemma print_xml_effect:
  assumes "print_xml ia g = Inr g'"
  shows "order g' = order g + 1 \<and> positions (printed g') = positions (printed g) @ [order g + 1]
         \<and> loc (stats g') = loc (stats g)"
  using assms
  by (auto simp: print_xml_def Let_def positions_append split: if_splits sum.splits
      dest!: print_args_positions)

lemma parse_instruction_effect:
  assumes "parse_instruction ia g = Inr g'"
  shows "order g' = order g + 1 \<and> positions (printed g') = positions (printed g) @ [order g + 1]
         \<and> loc (stats g') = loc (stats g)"
  using assms
  by (auto simp: parse_instruction_def Let_def split: option.splits sum.splits if_splits
      dest: print_xml_effect)

lemma instruction_scan_effect:
  assumes "\<not> (startswith line ''#'' \<or> strip line = [])" and "instruction_scan line g = Inr g'"
  shows "order g' = order g + 1 \<and> positions (printed g') = positions (printed g) @ [order g + 1]
         \<and> loc (stats g') = loc (stats g)"
proof -
  obtain g1 where c: "comment_counted g g1" and eq: "instruction_scan line g =
      (case split_ws_max1 (strip (hd (split_once CHR ''#'' line))) of
         [] \<Rightarrow> Inl IndexError
       | opcode # others \<Rightarrow>
           if instruction_dict opcode = None then Inl UnknownOpcodeError
           else
             (case match_operands (split_ws (if others \<noteq> [] then hd others else [])) of
                Inl e \<Rightarrow> Inl e
              | Inr tokens \<Rightarrow> parse_instruction (opcode, tokens) g1))"
    using assms(1) by (rule instruction_scan_unfold)
  obtain ia where "parse_instruction ia g1 = Inr g'"
    using assms(2) unfolding eq by (auto split: list.splits if_splits sum.splits)
  then have "order g' = order g1 + 1
      \<and> positions (printed g') = positions (printed g1) @ [order g1 + 1]
      \<and> loc (stats g') = loc (stats g1)"
    by (rule parse_instruction_effect)
  moreover have "order g1 = order g" "printed g1 = printed g" "loc (stats g1) = loc (stats g)"
    using c by (auto simp: comment_counted_def)
  ultimately show ?thesis by simp
qed

lemma upt_step: "[a + 1 ..< a + 1 + Suc n] = (a + 1) # [a + 1 + 1 ..< a + 1 + 1 + n]"
proof -
  have "[a + 1 ..< a + 1 + Suc n] = (a + 1) # [Suc (a + 1) ..< a + 1 + Suc n]"
    by (rule upt_conv_Cons) simp
  moreover have "Suc (a + 1) = a + 1 + 1" "a + 1 + Suc n = a + 1 + 1 + n"
    by simp_all
  ultimately show ?thesis
    by metis
qed

lemma read_lines_effect:
  "read_lines input False g = Inr g'
   \<Longrightarrow> order g' = order g + length (filter instruction_line input)
       \<and> loc (stats g') = loc (stats g) + length (filter instruction_line input)
       \<and> positions (printed g')
           = positions (printed g) @ [order g + 1 ..< order g + 1 + length (filter instruction_line input)]"
proof (induction input arbitrary: g)
  case Nil
  then show ?case by simp
next
  case (Cons raw rest)
  let ?g1 = "g\<lparr>stats := (stats g)\<lparr>eol := eol (stats g) + 1\<rparr>\<rparr>"
  show ?case
  proof (cases "instruction_line raw")
    case False
    then consider "startswith (strip raw) ''#''" | "\<not> startswith (strip raw) ''#''" "strip raw = []"
      unfolding instruction_line_def by blast
    then obtain g2 where rec: "read_lines rest False g2 = Inr g'"
      and same: "order g2 = order g" "loc (stats g2) = loc (stats g)" "printed g2 = printed g"
    proof cases
      case 1
      then have "read_lines rest False
                   (?g1\<lparr>stats := (stats ?g1)\<lparr>comments := comments (stats ?g1) + 1\<rparr>\<rparr>) = Inr g'"
        using Cons.prems by (simp add: Let_def)
      then show ?thesis by (rule that) simp_all
    next
      case 2
      then have "read_lines rest False ?g1 = Inr g'"
        using Cons.prems by (simp add: Let_def)
      then show ?thesis by (rule that) simp_all
    qed
    show ?thesis
      using Cons.IH [OF rec] same False by simp
  next
    case True
    then have ns: "\<not> startswith (strip raw) ''#''" "strip raw \<noteq> []"
      by (auto simp: instruction_line_def)
    let ?g2 = "?g1\<lparr>stats := (stats ?g1)\<lparr>loc := loc (stats ?g1) + 1\<rparr>\<rparr>"
    obtain g3 where scan: "instruction_scan (strip raw) ?g2 = Inr g3"
      and rec: "read_lines rest False g3 = Inr g'"
      using Cons.prems ns by (auto simp: Let_def split: sum.splits)
    have "\<not> (startswith (strip raw) ''#'' \<or> strip (strip raw) = [])"
      using ns by (simp add: strip_strip)
    then have 3: "order g3 = order ?g2 + 1
        \<and> positions (printed g3) = positions (printed ?g2) @ [order ?g2 + 1]
        \<and> loc (stats g3) = loc (stats ?g2)"
      using scan by (rule instruction_scan_effect)
    define n where "n = length (filter instruction_line rest)"
    have len: "length (filter instruction_line (raw # rest)) = Suc n"
      using True by (simp add: n_def)
    have o3: "order g3 = order g + 1" and l3: "loc (stats g3) = loc (stats g) + 1"
      and p3: "positions (printed g3) = positions (printed g) @ [order g + 1]"
      using 3 by simp_all
    have ih: "order g' = order g3 + n" "loc (stats g') = loc (stats g3) + n"
      "positions (printed g') = positions (printed g3) @ [order g3 + 1 ..< order g3 + 1 + n]"
      using Cons.IH [OF rec] by (simp_all add: n_def)
    have "positions (printed g')
          = positions (printed g) @ ((order g + 1) # [order g + 1 + 1 ..< order g + 1 + 1 + n])"
      unfolding ih(3) o3 p3 by simp
    then have "positions (printed g')
          = positions (printed g) @ [order g + 1 ..< order g + 1 + Suc n]"
      by (simp only: upt_step)
    moreover have "order g' = order g + Suc n" "loc (stats g') = loc (stats g) + Suc n"
      using ih(1,2) o3 l3 by simp_all
    ultimately show ?thesis
      unfolding len by blast
  qed
qed

lemma after_input_positions:
  assumes "after_input args input = Inr g"
  shows "positions (printed g) = [1 ..< Suc (length (filter instruction_line (tl input)))]
         \<and> order g = length (filter instruction_line (tl input))
         \<and> loc (stats g) = length (filter instruction_line (tl input))"
proof -
  let ?g0 = "initial_globals\<lparr>printed := [XmlDeclaration, ProgramOpen]\<rparr>"
  obtain g1 where r: "read_lines input True ?g0 = Inr g1"
    and g: "g = g1\<lparr>printed := printed g1 @ [ProgramClose]\<rparr>"
    using assms by (auto simp: after_input_def split: sum.splits)
  show ?thesis
  proof (cases input)
    case Nil
    then have "g1 = ?g0"
      using r by simp
    then show ?thesis
      by (simp add: g Nil positions_append initial_globals_def initial_stats_def)
  next
    case (Cons raw rest)
    let ?g1 = "?g0\<lparr>stats := (stats ?g0)\<lparr>eol := eol (stats ?g0) + 1\<rparr>\<rparr>"
    have "read_lines rest False ?g1 = Inr g1"
      using r by (simp add: Cons Let_def split: if_splits)
    from read_lines_effect [OF this] show ?thesis
      by (simp add: g Cons positions_append initial_globals_def initial_stats_def)
  qed
qed

text \<open>
  Claim C1: on every input on which the run raises no error, the positions of the
  instructions printed are 1 to \<open>N\<close> in increasing order, without gaps or repeats, where
  \<open>N\<close> is the number of lines after the header that are neither comment lines nor empty;
  \<open>N\<close> is also the last position given and the instruction count.
\<close>

theorem positions_one_to_N:
  assumes "main args input files = Inr (g, files')"
  shows "positions (printed g) = [1 ..< Suc (length (filter instruction_line (tl input)))]
         \<and> order g = length (filter instruction_line (tl input))
         \<and> loc (stats g) = length (filter instruction_line (tl input))"
proof -
  obtain g0 s where a: "after_input args input = Inr g0"
    and p: "post_pass args (stats g0) files = Inr (s, files')"
    and g: "g = g0\<lparr>stats := s\<rparr>"
    using assms by (auto simp: main_def split: sum.splits)
  have "loc s = loc (stats g0)"
    using post_pass_only_removed [OF p] by (simp add: only_removed_def)
  then show ?thesis
    using after_input_positions [OF a] by (simp add: g)
qed

theorem positions_one_to_N_witness:
  "main [] [''.IPPcode24'', ''DEFVAR GF@a'', ''# note'', [], ''BREAK # done''] Map.empty
   = Inr (\<lparr>stats = \<lparr>loc = 2, comments = 2, labels = [], jumps = [],
                     used_instructions = [(''DEFVAR'', 1), (''BREAK'', 1)], eol = 5\<rparr>,
            order = 2,
            printed = [XmlDeclaration, ProgramOpen,
                       InstructionOpen 1 ''DEFVAR'', ArgLine 1 ''var'' ''GF@a'', InstructionClose,
                       InstructionOpen 2 ''BREAK'', InstructionClose, ProgramClose]\<rparr>,
          Map.empty)
   \<and> length (filter instruction_line
                (tl [''.IPPcode24'', ''DEFVAR GF@a'', ''# note'', [], ''BREAK # done''])) = 2
   \<and> positions [XmlDeclaration, ProgramOpen,
                 InstructionOpen 1 ''DEFVAR'', ArgLine 1 ''var'' ''GF@a'', InstructionClose,
                 InstructionOpen 2 ''BREAK'', InstructionClose, ProgramClose] = [1 ..< Suc 2]"
proof -
  have a: "after_input [] [''.IPPcode24'', ''DEFVAR GF@a'', ''# note'', [], ''BREAK # done'']
    = Inr \<lparr>stats = \<lparr>loc = 2, comments = 2, labels = [], jumps = [],
                     used_instructions = [(''DEFVAR'', 1), (''BREAK'', 1)], eol = 5\<rparr>,
            order = 2,
            printed = [XmlDeclaration, ProgramOpen,
                       InstructionOpen 1 ''DEFVAR'', ArgLine 1 ''var'' ''GF@a'', InstructionClose,
                       InstructionOpen 2 ''BREAK'', InstructionClose, ProgramClose]\<rparr>"
    by code_simp
  have m: "main [] [''.IPPcode24'', ''DEFVAR GF@a'', ''# note'', [], ''BREAK # done''] Map.empty
   = Inr (\<lparr>stats = \<lparr>loc = 2, comments = 2, labels = [], jumps = [],
                     used_instructions = [(''DEFVAR'', 1), (''BREAK'', 1)], eol = 5\<rparr>,
            order = 2,
            printed = [XmlDeclaration, ProgramOpen,
                       InstructionOpen 1 ''DEFVAR'', ArgLine 1 ''var'' ''GF@a'', InstructionClose,
                       InstructionOpen 2 ''BREAK'', InstructionClose, ProgramClose]\<rparr>,
          Map.empty)"
    by (simp add: main_def a post_pass_def)
  have n: "length (filter instruction_line
                (tl [''.IPPcode24'', ''DEFVAR GF@a'', ''# note'', [], ''BREAK # done''])) = 2"
    by code_simp
  have p: "positions [XmlDeclaration, ProgramOpen,
                 InstructionOpen 1 ''DEFVAR'', ArgLine 1 ''var'' ''GF@a'', InstructionClose,
                 InstructionOpen 2 ''BREAK'', InstructionClose, ProgramClose] = [1 ..< Suc 2]"
    by code_simp
  show ?thesis
    using positions_one_to_N [OF m] m n p by blast
qed

subsection \<open>Unknown opcodes\<close>

lemma is_space_blank: "is_space CHR '' ''"
  by code_simp

lemma operands_start:
  "concat (map (\<lambda>operand. CHR '' '' # operand) operands) = []
   \<or> is_space (hd (concat (map (\<lambda>operand. CHR '' '' # operand) operands)))"
  by (cases operands) (simp_all add: is_space_blank)

lemma hd_split_once: "hd (split_once c s) = takeWhile (\<lambda>x. x \<noteq> c) s"
proof (cases "dropWhile (\<lambda>x. x \<noteq> c) s")
  case Nil
  then have tw: "takeWhile (\<lambda>x. x \<noteq> c) s = s"
    by (metis append_Nil2 takeWhile_dropWhile_id)
  show ?thesis
    unfolding split_once_def Nil tw by simp
next
  case (Cons a as)
  then show ?thesis
    by (simp add: split_once_def)
qed

lemma rstrip_prefix: "\<exists>zs. ys = rev (dropWhile P (rev ys)) @ zs"
proof -
  have "rev ys = takeWhile P (rev ys) @ dropWhile P (rev ys)"
    by simp
  then have "ys = rev (dropWhile P (rev ys)) @ rev (takeWhile P (rev ys))"
    by (metis rev_append rev_rev_ident)
  then show ?thesis ..
qed

lemma strip_opcode_append:
  assumes "opcode \<noteq> []" and "\<forall>c \<in> set opcode. \<not> is_space c"
    and "ys = [] \<or> is_space (hd ys)"
  shows "\<exists>r. strip (opcode @ ys) = opcode @ r \<and> (r = [] \<or> is_space (hd r))"
proof -
  have h: "\<not> is_space (hd opcode)" and l: "\<not> is_space (last opcode)"
    using assms(1,2) by simp_all
  have 1: "dropWhile is_space (opcode @ ys) = opcode @ ys"
    using assms(1) h by (cases opcode) auto
  have ro: "dropWhile is_space (rev opcode) = rev opcode"
    using assms(1) l by (cases "rev opcode") (auto simp: hd_rev)
  let ?r = "rev (dropWhile is_space (rev ys))"
  have 2: "dropWhile is_space (rev ys @ rev opcode) = dropWhile is_space (rev ys) @ rev opcode"
  proof (cases "\<forall>x \<in> set (rev ys). is_space x")
    case True
    then show ?thesis
      by (simp add: dropWhile_append ro)
  next
    case False
    then show ?thesis
      by (auto simp: dropWhile_append)
  qed
  have s: "strip (opcode @ ys) = opcode @ ?r"
    by (simp add: strip_def 1 2)
  obtain zs where zs: "ys = ?r @ zs"
    using rstrip_prefix by blast
  have "?r = [] \<or> is_space (hd ?r)"
  proof (cases "?r = []")
    case True
    then show ?thesis by simp
  next
    case False
    then have "hd ys = hd ?r"
      using zs by (metis hd_append2)
    moreover have "ys \<noteq> []"
      using zs False by auto
    ultimately show ?thesis
      using assms(3) by simp
  qed
  with s show ?thesis by blast
qed

lemma split_ws_max1_opcode:
  assumes "opcode \<noteq> []" and "\<forall>c \<in> set opcode. \<not> is_space c"
    and "r = [] \<or> is_space (hd r)"
  shows "\<exists>others. split_ws_max1 (opcode @ r) = opcode # others"
proof -
  obtain c cs where o: "opcode = c # cs"
    using assms(1) by (cases opcode) auto
  have d: "dropWhile is_space (opcode @ r) = c # (cs @ r)"
    using assms(2) by (simp add: o)
  have "takeWhile non_space r = []"
    using assms(3) by (cases r) (auto simp: non_space_def)
  moreover have "\<forall>x \<in> set opcode. non_space x"
    using assms(2) by (simp add: non_space_def)
  ultimately have t: "takeWhile non_space (c # (cs @ r)) = opcode"
    using takeWhile_append2 [of opcode non_space r] by (simp add: o)
  show ?thesis
    by (simp add: split_ws_max1_def d t Let_def del: takeWhile.simps dropWhile.simps)
qed

lemma unknown_opcode_line:
  assumes "opcode \<noteq> []" and "\<forall>c \<in> set opcode. \<not> is_space c \<and> c \<noteq> CHR ''#''"
    and "instruction_dict opcode = None" and "rest = [] \<or> is_space (hd rest)"
  shows "instruction_scan (opcode @ rest) g = Inl UnknownOpcodeError"
proof -
  have nsp: "\<forall>c \<in> set opcode. \<not> is_space c" and nh: "\<forall>c \<in> set opcode. c \<noteq> CHR ''#''"
    using assms(2) by auto
  obtain c cs where o: "opcode = c # cs"
    using assms(1) by (cases opcode) auto
  have 1: "\<not> startswith (opcode @ rest) ''#''"
    using nh by (simp add: startswith_def o)
  obtain r0 where "strip (opcode @ rest) = opcode @ r0"
    using strip_opcode_append [OF assms(1) nsp assms(4)] by blast
  then have 2: "strip (opcode @ rest) \<noteq> []"
    using assms(1) by simp
  let ?before = "takeWhile (\<lambda>x. x \<noteq> CHR ''#'') rest"
  have b: "hd (split_once CHR ''#'' (opcode @ rest)) = opcode @ ?before"
    using nh by (simp add: hd_split_once takeWhile_append2)
  have "?before = [] \<or> is_space (hd ?before)"
    using assms(4) by (cases rest) auto
  then obtain r where r: "strip (opcode @ ?before) = opcode @ r" "r = [] \<or> is_space (hd r)"
    using strip_opcode_append [OF assms(1) nsp] by blast
  obtain others where s: "split_ws_max1 (opcode @ r) = opcode # others"
    using split_ws_max1_opcode [OF assms(1) nsp r(2)] by blast
  obtain g1 where "instruction_scan (opcode @ rest) g =
      (case split_ws_max1 (strip (hd (split_once CHR ''#'' (opcode @ rest)))) of
         [] \<Rightarrow> Inl IndexError
       | opcode # others \<Rightarrow>
           if instruction_dict opcode = None then Inl UnknownOpcodeError
           else
             (case match_operands (split_ws (if others \<noteq> [] then hd others else [])) of
                Inl e \<Rightarrow> Inl e
              | Inr tokens \<Rightarrow> parse_instruction (opcode, tokens) g1))"
    using 1 2 by (auto intro: instruction_scan_unfold)
  then show ?thesis
    by (simp add: b r(1) s assms(3))
qed

text \<open>
  Claim C8: for every opcode that is not in the signature table (an opcode is a run of
  characters without white space and without \<^verbatim>\<open>#\<close>, and is not empty) and every
  sequence of raw operands, whatever their shapes and however many, the scan of the line
  fails with \<open>UnknownOpcodeError\<close>, whose exit status is 22, and not with an error of
  the operands.
\<close>

theorem unknown_opcode_rejected:
  assumes "opcode \<noteq> []" and "\<forall>c \<in> set opcode. \<not> is_space c \<and> c \<noteq> CHR ''#''"
    and "instruction_dict opcode = None"
  shows "instruction_scan (source_line opcode operands) g = Inl UnknownOpcodeError
         \<and> exit_status UnknownOpcodeError = 22
         \<and> instruction_scan (source_line opcode operands) g \<noteq> Inl PatternMismatchError
         \<and> instruction_scan (source_line opcode operands) g \<noteq> Inl ArityError_too_few
         \<and> instruction_scan (source_line opcode operands) g \<noteq> Inl ArityError_too_many"
  using unknown_opcode_line [OF assms operands_start] by (simp add: source_line_def)

theorem unknown_opcode_rejected_witness:
  "''FOO'' \<noteq> [] \<and> list_all (\<lambda>c. \<not> is_space c \<and> c \<noteq> CHR ''#'') ''FOO''
   \<and> instruction_dict ''FOO'' = None
   \<and> source_line ''FOO'' [''@@@'', ''GF@a'', ''int@1'', ''x''] = ''FOO @@@ GF@a int@1 x''
   \<and> instruction_scan ''FOO @@@ GF@a int@1 x'' initial_globals = Inl UnknownOpcodeError
   \<and> match_pattern ''@@@'' = Inl PatternMismatchError"
proof -
  have 1: "list_all (\<lambda>c. \<not> is_space c \<and> c \<noteq> CHR ''#'') ''FOO''"
    by code_simp
  have 2: "instruction_dict ''FOO'' = None"
    by code_simp
  have 3: "source_line ''FOO'' [''@@@'', ''GF@a'', ''int@1'', ''x''] = ''FOO @@@ GF@a int@1 x''"
    by (simp add: source_line_def)
  have 4: "match_pattern ''@@@'' = Inl PatternMismatchError"
    by code_simp
  have "\<forall>c \<in> set ''FOO''. \<not> is_space c \<and> c \<noteq> CHR ''#''"
    using 1 by (simp only: list_all_iff)
  from unknown_opcode_rejected [OF _ this 2, of "[''@@@'', ''GF@a'', ''int@1'', ''x'']" initial_globals]
  have "instruction_scan ''FOO @@@ GF@a int@1 x'' initial_globals = Inl UnknownOpcodeError"
    unfolding 3 by simp
  with 1 2 3 4 show ?thesis by simp
qed

subsection \<open>Type keywords are never labels\<close>

lemma match_pattern_keyword:
  assumes "kw \<in> set type_keywords"
  shows "match_pattern kw = Inr \<lparr>token_type = ''type'', token_value = kw\<rparr>"
proof -
  have "match_pattern ''int'' = Inr \<lparr>token_type = ''type'', token_value = ''int''\<rparr>"
    by code_simp
  moreover have "match_pattern ''bool'' = Inr \<lparr>token_type = ''type'', token_value = ''bool''\<rparr>"
    by code_simp
  moreover have "match_pattern ''string'' = Inr \<lparr>token_type = ''type'', token_value = ''string''\<rparr>"
    by code_simp
  ultimately show ?thesis
    using assms by (auto simp: type_keywords_def)
qed

lemma label_token_not_keyword:
  assumes "match_pattern operand = Inr token" and "token_type token = ''label''"
  shows "token_value token \<notin> set type_keywords"
proof
  assume "token_value token \<in> set type_keywords"
  moreover have "token_value token = operand"
    using assms(1) by (auto simp: match_pattern_def split: if_splits)
  ultimately have "match_pattern operand = Inr \<lparr>token_type = ''type'', token_value = operand\<rparr>"
    using match_pattern_keyword by simp
  then show False
    using assms by simp
qed

lemma match_operands_nth:
  "match_operands operands = Inr tokens
   \<Longrightarrow> length tokens = length operands
       \<and> (\<forall>i < length operands. match_pattern (operands ! i) = Inr (tokens ! i))"
proof (induction operands arbitrary: tokens)
  case Nil
  then show ?case by simp
next
  case (Cons operand rest)
  then obtain token tokens' where t: "match_pattern operand = Inr token"
    and r: "match_operands rest = Inr tokens'" and ts: "tokens = token # tokens'"
    by (auto split: sum.splits)
  show ?case
    using Cons.IH [OF r] t by (auto simp: ts nth_Cons split: nat.splits)
qed

lemma label_only_first:
  "list_all (\<lambda>entry. list_all (\<lambda>pattern. pattern \<noteq> ''label'') (tl (snd entry))) instruction_table"
  by code_simp

lemma label_position:
  assumes "instruction_dict opcode = Some patterns" and "i < length patterns"
    and "patterns ! i = ''label''"
  shows "i = 0"
proof (rule ccontr)
  assume "i \<noteq> 0"
  then obtain j where j: "i = Suc j"
    by (cases i) auto
  have "(opcode, patterns) \<in> set instruction_table"
    using assms(1) by (auto simp: instruction_dict_def dest: map_of_SomeD)
  then have "list_all (\<lambda>pattern. pattern \<noteq> ''label'') (tl patterns)"
    using label_only_first by (auto simp: list_all_iff)
  moreover have "patterns ! i \<in> set (tl patterns)"
    using assms(2) j by (cases patterns) auto
  ultimately show False
    using assms(3) by (auto simp: list_all_iff)
qed

lemma label_opcodes:
  "map fst (filter (\<lambda>entry. ''label'' \<in> set (snd entry)) instruction_table)
   = [''CALL'', ''LABEL'', ''JUMP'', ''JUMPIFEQ'', ''JUMPIFNEQ'']"
  by code_simp

lemma keyword_for_label_rejected:
  assumes "instruction_dict opcode = Some patterns" and "i < length patterns"
    and "patterns ! i = ''label''" and "i < length tokens"
    and "token_type (tokens ! i) = ''type''"
  shows "parse_instruction (opcode, tokens) g = Inl (RoleMismatchError (i + 1))"
proof -
  have i: "i = 0"
    using assms(1-3) by (rule label_position)
  then obtain rest where p: "patterns = ''label'' # rest"
    using assms(2,3) by (cases patterns) auto
  have "check_patterns tokens 0 patterns = Inl (RoleMismatchError 1)"
    using assms(4,5) i by (simp add: p check_role_def)
  then show ?thesis
    by (simp add: parse_instruction_def assms(1) i)
qed

subsection \<open>The keys of the labels and of the jumps\<close>

lemma no_keyword_keys_update:
  assumes "no_keyword_keys s" and "k \<notin> set type_keywords"
  shows "no_keyword_keys (s\<lparr>labels := AList.update k v (labels s)\<rparr>)"
    and "no_keyword_keys (s\<lparr>jumps := AList.update k v (jumps s)\<rparr>)"
  using assms by (auto simp: no_keyword_keys_def list_all_iff update_conv')

lemma label_opcode_patterns:
  assumes "opcode \<in> set [''LABEL'', ''CALL'', ''JUMP'', ''JUMPIFEQ'', ''JUMPIFNEQ'']"
    and "instruction_dict opcode = Some patterns"
  shows "\<exists>rest. patterns = ''label'' # rest"
proof -
  have "instruction_dict ''LABEL'' = Some [''label'']"
    "instruction_dict ''CALL'' = Some [''label'']"
    "instruction_dict ''JUMP'' = Some [''label'']"
    "instruction_dict ''JUMPIFEQ'' = Some [''label'', ''symb'', ''symb'']"
    "instruction_dict ''JUMPIFNEQ'' = Some [''label'', ''symb'', ''symb'']"
    by code_simp+
  then show ?thesis
    using assms by auto
qed

lemma check_patterns_label_first:
  assumes "check_patterns tokens 0 (''label'' # rest) = Inr u"
  shows "tokens \<noteq> [] \<and> token_type (hd tokens) = ''label''"
  using assms
  by (cases tokens) (auto simp: check_role_def split: if_splits sum.splits)

lemma print_xml_keys:
  assumes "print_xml (opcode, tokens) g = Inr g'" and "no_keyword_keys (stats g)"
    and "opcode \<in> set [''LABEL'', ''CALL'', ''JUMP'', ''JUMPIFEQ'', ''JUMPIFNEQ'']
         \<Longrightarrow> token_value (hd tokens) \<notin> set type_keywords"
  shows "no_keyword_keys (stats g')"
proof -
  let ?s1 = "(stats g)\<lparr>used_instructions := count_opcode opcode (used_instructions (stats g))\<rparr>"
  have s1: "no_keyword_keys ?s1"
    using assms(2) by (simp add: no_keyword_keys_def)
  let ?s2 = "if opcode = ''LABEL''
             then ?s1\<lparr>labels := AList.update (token_value (hd tokens)) (order g + 1) (labels ?s1)\<rparr>
             else ?s1"
  have s2: "no_keyword_keys ?s2"
  proof (cases "opcode = ''LABEL''")
    case True
    then have "token_value (hd tokens) \<notin> set type_keywords"
      using assms(3) by simp
    from no_keyword_keys_update(1) [OF s1 this] True show ?thesis
      by simp
  next
    case False
    then show ?thesis
      using s1 by simp
  qed
  let ?s3 = "if opcode \<in> set [''CALL'', ''JUMP'', ''JUMPIFEQ'', ''JUMPIFNEQ'']
             then ?s2\<lparr>jumps := AList.update (token_value (hd tokens)) (order g + 1) (jumps ?s2)\<rparr>
             else ?s2"
  have s3: "no_keyword_keys ?s3"
  proof (cases "opcode \<in> set [''CALL'', ''JUMP'', ''JUMPIFEQ'', ''JUMPIFNEQ'']")
    case True
    then have "token_value (hd tokens) \<notin> set type_keywords"
      using assms(3) by simp
    from no_keyword_keys_update(2) [OF s2 this] True show ?thesis
      by (simp only: if_True)
  next
    case False
    then show ?thesis
      using s2 by (simp only: if_False)
  qed
  have "stats g' = ?s3"
    using assms(1) by (auto simp: print_xml_def Let_def split: if_splits sum.splits)
  then show ?thesis
    using s3 by simp
qed

lemma parse_instruction_keys:
  assumes "parse_instruction (opcode, tokens) g = Inr g'" and "no_keyword_keys (stats g)"
    and "match_operands operands = Inr tokens"
  shows "no_keyword_keys (stats g')"
proof -
  obtain patterns u where d: "instruction_dict opcode = Some patterns"
    and c: "check_patterns tokens 0 patterns = Inr u"
    and p: "print_xml (opcode, tokens) g = Inr g'"
    using assms(1)
    by (auto simp: parse_instruction_def Let_def split: option.splits sum.splits if_splits)
  have "token_value (hd tokens) \<notin> set type_keywords"
    if op: "opcode \<in> set [''LABEL'', ''CALL'', ''JUMP'', ''JUMPIFEQ'', ''JUMPIFNEQ'']"
  proof -
    obtain rest where r: "patterns = ''label'' # rest"
      using label_opcode_patterns [OF op d] by blast
    have "check_patterns tokens 0 (''label'' # rest) = Inr u"
      using c unfolding r .
    then have t: "tokens \<noteq> []" "token_type (hd tokens) = ''label''"
      using check_patterns_label_first by blast+
    have len: "length tokens = length operands"
      and nth: "\<forall>i < length operands. match_pattern (operands ! i) = Inr (tokens ! i)"
      using match_operands_nth [OF assms(3)] by blast+
    have "0 < length operands"
      using t(1) len by (cases operands) auto
    then have "match_pattern (operands ! 0) = Inr (tokens ! 0)"
      using nth by blast
    moreover have "tokens ! 0 = hd tokens"
      using t(1) by (simp add: hd_conv_nth)
    ultimately have "match_pattern (operands ! 0) = Inr (hd tokens)"
      by simp
    then show ?thesis
      using t(2) by (rule label_token_not_keyword)
  qed
  with p assms(2) show ?thesis
    by (rule print_xml_keys)
qed

lemma instruction_scan_keys:
  assumes "instruction_scan line g = Inr g'" and "no_keyword_keys (stats g)"
  shows "no_keyword_keys (stats g')"
proof (cases "startswith line ''#'' \<or> strip line = []")
  case True
  then show ?thesis
    using assms by (simp add: instruction_scan_def)
next
  case False
  then obtain g1 where c: "comment_counted g g1" and eq: "instruction_scan line g =
      (case split_ws_max1 (strip (hd (split_once CHR ''#'' line))) of
         [] \<Rightarrow> Inl IndexError
       | opcode # others \<Rightarrow>
           if instruction_dict opcode = None then Inl UnknownOpcodeError
           else
             (case match_operands (split_ws (if others \<noteq> [] then hd others else [])) of
                Inl e \<Rightarrow> Inl e
              | Inr tokens \<Rightarrow> parse_instruction (opcode, tokens) g1))"
    by (rule instruction_scan_unfold)
  obtain opcode tokens operands where pi: "parse_instruction (opcode, tokens) g1 = Inr g'"
    and mo: "match_operands operands = Inr tokens"
    using assms(1) unfolding eq by (auto split: list.splits if_splits sum.splits)
  have "no_keyword_keys (stats g1)"
    using c assms(2) by (auto simp: comment_counted_def no_keyword_keys_def)
  with pi show ?thesis
    using mo by (rule parse_instruction_keys)
qed

lemma read_lines_keys:
  "read_lines input first_line g = Inr g' \<Longrightarrow> no_keyword_keys (stats g)
   \<Longrightarrow> no_keyword_keys (stats g')"
proof (induction input arbitrary: first_line g)
  case Nil
  then show ?case by simp
next
  case (Cons raw rest)
  let ?g1 = "g\<lparr>stats := (stats g)\<lparr>eol := eol (stats g) + 1\<rparr>\<rparr>"
  let ?gc = "?g1\<lparr>stats := (stats ?g1)\<lparr>comments := comments (stats ?g1) + 1\<rparr>\<rparr>"
  let ?gl = "?g1\<lparr>stats := (stats ?g1)\<lparr>loc := loc (stats ?g1) + 1\<rparr>\<rparr>"
  have k: "no_keyword_keys (stats ?g1)" "no_keyword_keys (stats ?gc)" "no_keyword_keys (stats ?gl)"
    using Cons.prems(2) by (simp_all add: no_keyword_keys_def)
  consider (direct) g2 fl where "read_lines rest fl g2 = Inr g'" "g2 = ?g1 \<or> g2 = ?gc"
    | (scan) g2 fl where "instruction_scan (strip raw) ?gl = Inr g2" "read_lines rest fl g2 = Inr g'"
    using Cons.prems(1) by (auto simp: Let_def split: if_splits sum.splits)
  then show ?case
  proof cases
    case direct
    then have "no_keyword_keys (stats g2)"
      using k by auto
    with direct(1) show ?thesis
      by (rule Cons.IH)
  next
    case scan
    have "no_keyword_keys (stats g2)"
      using scan(1) k(3) by (rule instruction_scan_keys)
    with scan(2) show ?thesis
      by (rule Cons.IH)
  qed
qed

lemma main_keys:
  assumes "main args input files = Inr (g, files')"
  shows "no_keyword_keys (stats g)"
proof -
  obtain g0 s where a: "after_input args input = Inr g0"
    and p: "post_pass args (stats g0) files = Inr (s, files')"
    and g: "g = g0\<lparr>stats := s\<rparr>"
    using assms by (auto simp: main_def split: sum.splits)
  let ?g = "initial_globals\<lparr>printed := [XmlDeclaration, ProgramOpen]\<rparr>"
  obtain g1 where r: "read_lines input True ?g = Inr g1"
    and g0: "g0 = g1\<lparr>printed := printed g1 @ [ProgramClose]\<rparr>"
    using a by (auto simp: after_input_def split: sum.splits)
  have "no_keyword_keys (stats ?g)"
    by (simp add: no_keyword_keys_def initial_globals_def initial_stats_def list_all_iff)
  with r have "no_keyword_keys (stats g1)"
    by (rule read_lines_keys)
  moreover have "labels s = labels (stats g0)" "jumps s = jumps (stats g0)"
    using post_pass_only_removed [OF p] by (simp_all add: only_removed_def)
  ultimately show ?thesis
    by (simp add: g g0 no_keyword_keys_def)
qed

text \<open>
  Claim C10 says that a type keyword in the position of a label always fails with the
  role mismatch. Lines 122 to 124 classify every operand of the line before
  \<^verbatim>\<open>parse_instruction\<close> is called: on \<^verbatim>\<open>JUMPIFEQ int @@@ GF@a\<close> the run ends with
  the pattern mismatch of \<^verbatim>\<open>@@@\<close>, and not with the role mismatch of \<^verbatim>\<open>int\<close>.
\<close>

theorem keyword_with_unmatched_operand:
  "instruction_dict ''JUMPIFEQ'' = Some [''label'', ''symb'', ''symb'']
   \<and> match_pattern ''int'' = Inr \<lparr>token_type = ''type'', token_value = ''int''\<rparr>
   \<and> instruction_scan ''JUMPIFEQ int @@@ GF@a'' initial_globals = Inl PatternMismatchError
   \<and> instruction_scan ''LABEL int @@@'' initial_globals = Inl PatternMismatchError"
  by code_simp

text \<open>
  Claim C10 as amended: the operands \<^verbatim>\<open>int\<close>, \<^verbatim>\<open>bool\<close> and \<^verbatim>\<open>string\<close> are
  classified as type keywords; the opcodes with a label in their signature are
  \<^verbatim>\<open>CALL\<close>, \<^verbatim>\<open>LABEL\<close>, \<^verbatim>\<open>JUMP\<close>, \<^verbatim>\<open>JUMPIFEQ\<close> and \<^verbatim>\<open>JUMPIFNEQ\<close>; for
  an opcode whose signature has a label at some position, when every operand of the
  instruction matches one of the patterns (an operand that matches none ends the run
  first, with the pattern mismatch), a type keyword at that position fails in
  \<^verbatim>\<open>parse_instruction\<close> with the role mismatch of that argument (exit status 23); and
  after a run without error no type keyword is a key of the labels or of the jump
  references.
\<close>

theorem type_keyword_never_label:
  "(kw \<in> set type_keywords \<longrightarrow>
      match_pattern kw = Inr \<lparr>token_type = ''type'', token_value = kw\<rparr>)
   \<and> map fst (filter (\<lambda>entry. ''label'' \<in> set (snd entry)) instruction_table)
       = [''CALL'', ''LABEL'', ''JUMP'', ''JUMPIFEQ'', ''JUMPIFNEQ'']
   \<and> (kw \<in> set type_keywords \<and> instruction_dict opcode = Some patterns
        \<and> i < length patterns \<and> patterns ! i = ''label''
        \<and> match_operands operands = Inr tokens \<and> i < length operands \<and> operands ! i = kw
        \<longrightarrow> parse_instruction (opcode, tokens) g = Inl (RoleMismatchError (i + 1))
            \<and> exit_status (RoleMismatchError (i + 1)) = 23)
   \<and> (kw \<in> set type_keywords \<and> main args input files = Inr (g', files')
        \<longrightarrow> map_of (labels (stats g')) kw = None \<and> map_of (jumps (stats g')) kw = None)"
proof -
  have 3: "parse_instruction (opcode, tokens) g = Inl (RoleMismatchError (i + 1))"
    if "kw \<in> set type_keywords" "instruction_dict opcode = Some patterns"
      "i < length patterns" "patterns ! i = ''label''"
      "match_operands operands = Inr tokens" "i < length operands" "operands ! i = kw"
  proof -
    have mp: "match_pattern (operands ! i) = Inr (tokens ! i)" and il: "i < length tokens"
      using match_operands_nth [OF that(5)] that(6) by auto
    have "match_pattern (operands ! i) = Inr \<lparr>token_type = ''type'', token_value = kw\<rparr>"
      unfolding that(7) using that(1) by (rule match_pattern_keyword)
    with mp have "tokens ! i = \<lparr>token_type = ''type'', token_value = kw\<rparr>"
      by simp
    then have "token_type (tokens ! i) = ''type''"
      by simp
    with that(2,3,4) il show ?thesis
      by (rule keyword_for_label_rejected)
  qed
  have 4: "map_of (labels (stats g')) kw = None \<and> map_of (jumps (stats g')) kw = None"
    if "kw \<in> set type_keywords" "main args input files = Inr (g', files')"
    using main_keys [OF that(2)] that(1) by (simp add: no_keyword_keys_def list_all_iff)
  show ?thesis
    using match_pattern_keyword label_opcodes 3 4 by simp
qed

theorem type_keyword_never_label_witness:
  "''int'' \<in> set type_keywords
   \<and> match_pattern ''int'' = Inr \<lparr>token_type = ''type'', token_value = ''int''\<rparr>
   \<and> instruction_dict ''JUMPIFEQ'' = Some [''label'', ''symb'', ''symb'']
   \<and> match_operands [''int'', ''GF@a'', ''int@1'']
       = Inr [\<lparr>token_type = ''type'', token_value = ''int''\<rparr>,
              \<lparr>token_type = ''var'', token_value = ''GF@a''\<rparr>,
              \<lparr>token_type = ''const'', token_value = ''int@1''\<rparr>]
   \<and> parse_instruction
         (''JUMPIFEQ'', [\<lparr>token_type = ''type'', token_value = ''int''\<rparr>,
                         \<lparr>token_type = ''var'', token_value = ''GF@a''\<rparr>,
                         \<lparr>token_type = ''const'', token_value = ''int@1''\<rparr>]) initial_globals
       = Inl (RoleMismatchError 1)
   \<and> main [] [''.IPPcode24'', ''LABEL integer''] Map.empty
       = Inr (\<lparr>stats = \<lparr>loc = 1, comments = 0, labels = [(''integer'', 1)], jumps = [],
                         used_instructions = [(''LABEL'', 1)], eol = 2\<rparr>,
                order = 1,
                printed = [XmlDeclaration, ProgramOpen, InstructionOpen 1 ''LABEL'',
                           ArgLine 1 ''label'' ''integer'', InstructionClose, ProgramClose]\<rparr>,
              Map.empty)
   \<and> map_of [(''integer'', 1 :: nat)] ''int'' = None
   \<and> instruction_scan ''JUMPIFEQ int GF@a int@1'' initial_globals = Inl (RoleMismatchError 1)"
proof -
  have l: "instruction_scan ''JUMPIFEQ int GF@a int@1'' initial_globals
           = Inl (RoleMismatchError 1)"
    by code_simp
  have k: "''int'' \<in> set type_keywords"
    by (simp add: type_keywords_def)
  have d: "instruction_dict ''JUMPIFEQ'' = Some [''label'', ''symb'', ''symb'']"
    by code_simp
  have m: "match_operands [''int'', ''GF@a'', ''int@1'']
       = Inr [\<lparr>token_type = ''type'', token_value = ''int''\<rparr>,
              \<lparr>token_type = ''var'', token_value = ''GF@a''\<rparr>,
              \<lparr>token_type = ''const'', token_value = ''int@1''\<rparr>]"
    by code_simp
  have a: "after_input [] [''.IPPcode24'', ''LABEL integer'']
       = Inr \<lparr>stats = \<lparr>loc = 1, comments = 0, labels = [(''integer'', 1)], jumps = [],
                         used_instructions = [(''LABEL'', 1)], eol = 2\<rparr>,
                order = 1,
                printed = [XmlDeclaration, ProgramOpen, InstructionOpen 1 ''LABEL'',
                           ArgLine 1 ''label'' ''integer'', InstructionClose, ProgramClose]\<rparr>"
    by code_simp
  have r: "main [] [''.IPPcode24'', ''LABEL integer''] Map.empty
       = Inr (\<lparr>stats = \<lparr>loc = 1, comments = 0, labels = [(''integer'', 1)], jumps = [],
                         used_instructions = [(''LABEL'', 1)], eol = 2\<rparr>,
                order = 1,
                printed = [XmlDeclaration, ProgramOpen, InstructionOpen 1 ''LABEL'',
                           ArgLine 1 ''label'' ''integer'', InstructionClose, ProgramClose]\<rparr>,
              Map.empty)"
    by (simp add: main_def a post_pass_def)
  note t = type_keyword_never_label [of "''int''" "''JUMPIFEQ''" "[''label'', ''symb'', ''symb'']" 0
      "[''int'', ''GF@a'', ''int@1'']" _ initial_globals "[]" "[''.IPPcode24'', ''LABEL integer'']"
      Map.empty _ Map.empty]
  show ?thesis
    using t k d m r l by simp
qed

subsection \<open>The threshold of the frequent instructions\<close>












subsection \<open>The loop of the frequent instructions\<close>
















subsection \<open>\<^verbatim>\<open>fullmatch\<close> decides the words of a pattern\<close>









subsection \<open>The words of the patterns of the source\<close>

















subsection \<open>The body of a string constant\<close>










subsection \<open>The operands that match no pattern\<close>



end
